theory Spec2Isabelle
  imports Main "HOL-Library.Sublist"
begin

section \<open>Regular expressions of the transformer\<close>

text \<open>
  \<^verbatim>\<open>PostCSSTransformer.js\<close> decides with two regular expressions whether a
  stylesheet or a declaration value holds a \<^verbatim>\<open>composes ... from '<path>'\<close>.
  The matcher below is the backtracking matcher of the language standard, written as a
  list of successes: the results are ordered by priority, a greedy quantifier tries one
  more iteration before it stops, and an alternative tries its left side first. A state
  is the input still to be read and the captures made so far. Strings are lists of 8-bit
  characters.
\<close>

datatype regex =
    Lit char
  | Dot
  | Space
  | Seq regex regex
  | Alt regex regex
  | Star regex
  | Opt regex
  | Group nat regex

type_synonym captures = "(nat \<times> string) list"

text \<open>\<^verbatim>\<open>.\<close> matches every character but a line terminator.\<close>

definition line_terminator :: "char \<Rightarrow> bool" where
  "line_terminator c = (c = CHR 0x0A \<or> c = CHR 0x0D)"

text \<open>\<^verbatim>\<open>\s\<close>: tab, line feed, vertical tab, form feed, carriage return, space and the
  no-break space.\<close>

definition white_space :: "char \<Rightarrow> bool" where
  "white_space c = (c = CHR 0x09 \<or> c = CHR 0x0A \<or> c = CHR 0x0B \<or> c = CHR 0x0C
     \<or> c = CHR 0x0D \<or> c = CHR 0x20 \<or> c = CHR 0xA0)"

function rmatch :: "regex \<Rightarrow> string \<times> captures \<Rightarrow> (string \<times> captures) list" where
  "rmatch (Lit c) st =
     (case fst st of [] \<Rightarrow> [] | x # xs \<Rightarrow> if x = c then [(xs, snd st)] else [])"
| "rmatch Dot st =
     (case fst st of [] \<Rightarrow> [] | x # xs \<Rightarrow> if line_terminator x then [] else [(xs, snd st)])"
| "rmatch Space st =
     (case fst st of [] \<Rightarrow> [] | x # xs \<Rightarrow> if white_space x then [(xs, snd st)] else [])"
| "rmatch (Seq a b) st = concat (map (\<lambda>st'. rmatch b st') (rmatch a st))"
| "rmatch (Alt a b) st = rmatch a st @ rmatch b st"
| "rmatch (Star a) st =
     concat (map (\<lambda>st'. if length (fst st') < length (fst st) then rmatch (Star a) st' else [])
                 (rmatch a st)) @ [st]"
| "rmatch (Opt a) st = rmatch a st @ [st]"
| "rmatch (Group n a) st =
     map (\<lambda>st'. (fst st', (n, take (length (fst st) - length (fst st')) (fst st)) # snd st'))
         (rmatch a st)"
  by pat_completeness auto
termination
  by (relation "measures [\<lambda>(r, st). size r, \<lambda>(r, st). length (fst st)]") auto

text \<open>\<^verbatim>\<open>a+\<close> is \<^verbatim>\<open>aa*\<close>.\<close>

definition plus :: "regex \<Rightarrow> regex" where
  "plus a = Seq a (Star a)"

text \<open>
  \<^verbatim>\<open>RegExp.prototype.exec\<close> without the global or sticky flag: the match is tried at
  every start index from the left, and the first start that succeeds gives the captures
  of its highest-priority match.
\<close>

fun exec :: "regex \<Rightarrow> string \<Rightarrow> captures option" where
  "exec r [] = (case rmatch r ([], []) of [] \<Rightarrow> None | st # _ \<Rightarrow> Some (snd st))"
| "exec r (x # xs) =
     (case rmatch r (x # xs, []) of [] \<Rightarrow> exec r xs | st # _ \<Rightarrow> Some (snd st))"

definition test :: "regex \<Rightarrow> string \<Rightarrow> bool" where
  "test r s = (exec r s \<noteq> None)"

definition quote :: regex where
  "quote = Alt (Lit CHR 0x22) (Lit CHR 0x27)"

definition from_kw :: regex where
  "from_kw = Seq (Lit CHR ''f'') (Seq (Lit CHR ''r'') (Seq (Lit CHR ''o'') (Lit CHR ''m'')))"

definition composes_kw :: regex where
  "composes_kw = Seq (Lit CHR ''c'') (Seq (Lit CHR ''o'') (Seq (Lit CHR ''m'')
     (Seq (Lit CHR ''p'') (Seq (Lit CHR ''o'') (Seq (Lit CHR ''s'') (Seq (Lit CHR ''e'')
     (Seq (Lit CHR ''s'') (Lit CHR '':''))))))))"

text \<open>\<^verbatim>\<open>const COMPOSES_RE = /composes:.+from\s*("|').*("|')\s*;?/;\<close>\<close>

definition COMPOSES_RE :: regex where
  "COMPOSES_RE = Seq composes_kw (Seq (plus Dot) (Seq from_kw (Seq (Star Space)
     (Seq (Group 1 quote) (Seq (Star Dot) (Seq (Group 2 quote)
     (Seq (Star Space) (Opt (Lit CHR '';'')))))))))"

text \<open>\<^verbatim>\<open>const FROM_IMPORT_RE = /.+from\s*(?:"|')(.*)(?:"|')\s*;?/;\<close>\<close>

definition FROM_IMPORT_RE :: regex where
  "FROM_IMPORT_RE = Seq (plus Dot) (Seq from_kw (Seq (Star Space)
     (Seq quote (Seq (Group 1 (Star Dot)) (Seq quote
     (Seq (Star Space) (Opt (Lit CHR '';''))))))))"


section \<open>Data model\<close>

text \<open>
  What the transformer and its collaborators throw: the error of \<^verbatim>\<open>nullthrows\<close>, the
  \<^verbatim>\<open>TypeError\<close> of the language (reading a property of \<^verbatim>\<open>undefined\<close>, an invalid
  version), and the errors of the collaborators, which are opaque.
\<close>

datatype error = NullthrowsError | TypeError | Thrown string

text \<open>
  A callback changes a state and may throw: the result is the state as the callback
  leaves it and the error thrown, if any.
\<close>

type_synonym 's step = "'s \<Rightarrow> 's \<times> error option"

record position =
  line :: nat
  column :: nat

record source_location =
  loc_filePath :: string
  loc_start :: position
  loc_end :: position

text \<open>A dependency as the asset holds it; \<open>isURL\<close> is set by other transformers only.\<close>

record dependency =
  moduleSpecifier :: string
  loc :: "source_location option"
  isURL :: bool

text \<open>
  A declaration node of the stylesheet tree: \<^verbatim>\<open>decl.prop\<close>, \<^verbatim>\<open>decl.value\<close>,
  \<^verbatim>\<open>decl.raws.between\<close> (the text between property and value, such as \<^verbatim>\<open>": "\<close>) and
  \<^verbatim>\<open>decl.source.start\<close>, the position of the first character of the declaration. The
  parser gives every node a source; a node that a plug-in has created may have none, and
  then \<open>source_start\<close> is \<open>None\<close>.
\<close>

record decl =
  decl_prop :: string
  between :: string
  decl_value :: string
  source_start :: "position option"

datatype css_node =
    Decl decl
  | Rule string "css_node list"
  | AtRule string string "css_node list"
  | Comment string

type_synonym css_root = "css_node list"

text \<open>
  \<^verbatim>\<open>Container.walkDecls\<close>: the callback is called on every declaration of the tree, in
  document order; an error thrown by the callback ends the walk.
\<close>

fun walkDecls :: "css_node list \<Rightarrow> (decl \<Rightarrow> 's step) \<Rightarrow> 's step" where
  "walkDecls [] cb s = (s, None)"
| "walkDecls (Decl d # ns) cb s =
     (case cb d s of
        (s1, Some e) \<Rightarrow> (s1, Some e)
      | (s1, None) \<Rightarrow> walkDecls ns cb s1)"
| "walkDecls (Rule sel children # ns) cb s =
     (case walkDecls children cb s of
        (s1, Some e) \<Rightarrow> (s1, Some e)
      | (s1, None) \<Rightarrow> walkDecls ns cb s1)"
| "walkDecls (AtRule name params children # ns) cb s =
     (case walkDecls children cb s of
        (s1, Some e) \<Rightarrow> (s1, Some e)
      | (s1, None) \<Rightarrow> walkDecls ns cb s1)"
| "walkDecls (Comment c # ns) cb s = walkDecls ns cb s"

text \<open>
  A node of a parsed declaration value (\<^verbatim>\<open>postcss-value-parser\<close>): its \<^verbatim>\<open>type\<close>
  (\<^verbatim>\<open>word\<close>, \<^verbatim>\<open>string\<close>, \<^verbatim>\<open>div\<close>, \<^verbatim>\<open>space\<close>, \<^verbatim>\<open>comment\<close>, \<^verbatim>\<open>function\<close>), its
  \<^verbatim>\<open>value\<close> and, for a function, its argument \<^verbatim>\<open>nodes\<close>.
\<close>

datatype vnode = VNode (vtype: string) (vvalue: string) (vnodes: "vnode list")

text \<open>
  \<^verbatim>\<open>parsed.walk(cb)\<close>: the callback sees every node before the arguments of a function
  node; the callback of the transformer returns nothing, so no subtree is skipped. An
  error thrown by the callback ends the walk.
\<close>

fun walk :: "vnode list \<Rightarrow> (vnode \<Rightarrow> 's step) \<Rightarrow> 's step" where
  "walk [] cb s = (s, None)"
| "walk (VNode t v args # ns) cb s =
     (case cb (VNode t v args) s of
        (s1, Some e) \<Rightarrow> (s1, Some e)
      | (s1, None) \<Rightarrow>
          if t = ''function'' then
            (case walk args cb s1 of
               (s2, Some e) \<Rightarrow> (s2, Some e)
             | (s2, None) \<Rightarrow> walk ns cb s2)
          else walk ns cb s1)"

record ast =
  ast_type :: string
  ast_version :: string
  program :: css_root

type_synonym tokens = "(string \<times> string) list"

text \<open>
  The asset under transformation, with the slots the transformer reads and writes:
  \<open>cssModules\<close> is \<^verbatim>\<open>asset.meta.cssModules\<close> (absent until a token map is stored),
  \<open>committed\<close> records every tree handed to \<^verbatim>\<open>setAST\<close>, and \<open>pipeline_runs\<close> counts
  the runs of the plug-in chain started for the asset.
\<close>

record asset =
  filePath :: string
  code :: string
  ast :: "ast option"
  astDirty :: bool
  cssModules :: "tokens option"
  dependencies :: "dependency list"
  includedFiles :: "string list"
  committed :: "ast list"
  pipeline_runs :: nat

text \<open>Modelled from the spec: the asset capability interface (section 6), whose class
  is not part of the transformer's file.\<close>

definition getAST :: "asset \<Rightarrow> ast option" where
  "getAST a = ast a"

definition isASTDirty :: "asset \<Rightarrow> bool" where
  "isASTDirty a = astDirty a"

definition getCode :: "asset \<Rightarrow> string" where
  "getCode a = code a"

definition getDependencies :: "asset \<Rightarrow> dependency list" where
  "getDependencies a = dependencies a"

definition addDependency :: "string \<Rightarrow> source_location \<Rightarrow> asset \<Rightarrow> asset" where
  "addDependency spec l a =
     a\<lparr>dependencies := dependencies a @ [\<lparr>moduleSpecifier = spec, loc = Some l, isURL = False\<rparr>]\<rparr>"

definition addIncludedFile :: "string \<Rightarrow> asset \<Rightarrow> asset" where
  "addIncludedFile f a = a\<lparr>includedFiles := includedFiles a @ [f]\<rparr>"

definition setAST :: "ast \<Rightarrow> asset \<Rightarrow> asset" where
  "setAST t a = a\<lparr>ast := Some t, astDirty := True, committed := committed a @ [t]\<rparr>"

section \<open>Composes dependency extraction\<close>

text \<open>\<^verbatim>\<open>let [, importPath] = FROM_IMPORT_RE.exec(decl.value) || [];\<close>\<close>

definition importPath_of :: "string \<Rightarrow> string option" where
  "importPath_of v = (case exec FROM_IMPORT_RE v of None \<Rightarrow> None | Some cs \<Rightarrow> map_of cs 1)"

text \<open>
  The location the transformer builds for a dependency (lines 86 to 93). The expression
  reads \<^verbatim>\<open>decl.source.start\<close> and throws when the declaration has no source.
\<close>

definition composes_loc :: "decl \<Rightarrow> string \<Rightarrow> error + source_location" where
  "composes_loc d importPath =
     (case source_start d of
        None \<Rightarrow> Inl TypeError
      | Some start \<Rightarrow>
          Inr \<lparr>loc_filePath = importPath,
               loc_start = start,
               loc_end = \<lparr>line = line start, column = column start + length importPath\<rparr>\<rparr>)"

text \<open>
  The callback given to \<^verbatim>\<open>parsed.walk\<close> (lines 82 to 96): the argument of
  \<^verbatim>\<open>addDependency\<close> is built first, so nothing is registered when building it throws.
\<close>

definition composes_node :: "decl \<Rightarrow> string \<Rightarrow> vnode \<Rightarrow> asset step" where
  "composes_node d importPath node a =
     (if vtype node = ''string'' then
        (case composes_loc d importPath of
           Inl e \<Rightarrow> (a, Some e)
         | Inr l \<Rightarrow> (addDependency importPath l a, None))
      else (a, None))"

text \<open>The callback given to \<^verbatim>\<open>walkDecls\<close> (lines 77 to 98).\<close>

definition composes_decl :: "(string \<Rightarrow> vnode list) \<Rightarrow> decl \<Rightarrow> asset step" where
  "composes_decl valueParser d a =
     (case importPath_of (decl_value d) of
        None \<Rightarrow> (a, None)
      | Some importPath \<Rightarrow>
          if decl_prop d = ''composes'' then
            walk (valueParser (decl_value d)) (composes_node d importPath) a
          else (a, None))"

text \<open>Lines 75 to 99: the textual fast path, then the walk over the declarations.\<close>

definition extract_composes :: "(string \<Rightarrow> vnode list) \<Rightarrow> ast \<Rightarrow> asset step" where
  "extract_composes valueParser t a =
     (let code = (if isASTDirty a then None else Some (getCode a)) in
      if (case code of None \<Rightarrow> True | Some c \<Rightarrow> test COMPOSES_RE c)
      then walkDecls (program t) (composes_decl valueParser) a
      else (a, None))"

section \<open>AST tag and cache guard\<close>

text \<open>
  \<^verbatim>\<open>semver.satisfies(version, '^7.0.0')\<close>. The range is valid; the version is read as the
  library reads a version string in strict mode: at most 256 characters, white space
  trimmed, an optional \<^verbatim>\<open>v\<close>, three numeric identifiers without leading zeros and not
  above \<^verbatim>\<open>Number.MAX_SAFE_INTEGER\<close>, then an optional pre-release tag and optional build
  metadata. The library throws a \<^verbatim>\<open>TypeError\<close> on any other non-empty string, and answers
  \<^verbatim>\<open>false\<close> on the empty string.
\<close>

definition is_digit :: "char \<Rightarrow> bool" where
  "is_digit c = (48 \<le> (of_char c :: nat) \<and> (of_char c :: nat) \<le> 57)"

definition is_identifier_char :: "char \<Rightarrow> bool" where
  "is_identifier_char c =
     (is_digit c \<or> c = CHR ''-''
      \<or> (65 \<le> (of_char c :: nat) \<and> (of_char c :: nat) \<le> 90)
      \<or> (97 \<le> (of_char c :: nat) \<and> (of_char c :: nat) \<le> 122))"

fun parse_digits :: "string \<Rightarrow> nat \<Rightarrow> nat" where
  "parse_digits [] acc = acc"
| "parse_digits (c # cs) acc = parse_digits cs (10 * acc + ((of_char c :: nat) - 48))"

text \<open>\<^verbatim>\<open>0|[1-9]\d*\<close>\<close>

definition numeric_identifier :: "string \<Rightarrow> nat option" where
  "numeric_identifier s =
     (if s = [] \<or> \<not> list_all is_digit s \<or> (hd s = CHR ''0'' \<and> tl s \<noteq> []) then None
      else Some (parse_digits s 0))"

text \<open>A pre-release identifier is a numeric identifier or holds a letter or a hyphen.\<close>

definition prerelease_identifier :: "string \<Rightarrow> bool" where
  "prerelease_identifier s =
     (s \<noteq> [] \<and> list_all is_identifier_char s
      \<and> (list_all is_digit s \<longrightarrow> numeric_identifier s \<noteq> None))"

definition build_identifier :: "string \<Rightarrow> bool" where
  "build_identifier s = (s \<noteq> [] \<and> list_all is_identifier_char s)"

fun split_on :: "char \<Rightarrow> string \<Rightarrow> string list" where
  "split_on sep [] = [] # []"
| "split_on sep (c # cs) =
     (if c = sep then [] # split_on sep cs
      else (case split_on sep cs of [] \<Rightarrow> [c] # [] | w # ws \<Rightarrow> (c # w) # ws))"

text \<open>The text before the first separator, and the text after it if there is one.\<close>

fun split_first :: "char \<Rightarrow> string \<Rightarrow> string \<times> string option" where
  "split_first sep [] = ([], None)"
| "split_first sep (c # cs) =
     (if c = sep then ([], Some cs)
      else (case split_first sep cs of (before, after) \<Rightarrow> (c # before, after)))"

definition trim :: "string \<Rightarrow> string" where
  "trim s = rev (dropWhile white_space (rev (dropWhile white_space s)))"

definition MAX_SAFE_INTEGER :: nat where
  "MAX_SAFE_INTEGER = 9007199254740991"

definition MAX_LENGTH :: nat where
  "MAX_LENGTH = 256"

record semver =
  major :: nat
  minor :: nat
  patch :: nat
  prerelease :: "string list"

text \<open>\<^verbatim>\<open>new SemVer(version)\<close>; build metadata is checked and dropped.\<close>

definition semver_parse :: "string \<Rightarrow> error + semver" where
  "semver_parse version =
     (if length version > MAX_LENGTH then Inl TypeError
      else
        let s = trim version;
            s = (case s of [] \<Rightarrow> [] | c # r \<Rightarrow> if c = CHR ''v'' then r else s);
            (s, build) = split_first CHR ''+'' s;
            (core, pre) = split_first CHR ''-'' s;
            build_ok = (case build of None \<Rightarrow> True
                        | Some b \<Rightarrow> list_all build_identifier (split_on CHR ''.'' b));
            pre_ok = (case pre of None \<Rightarrow> True
                      | Some p \<Rightarrow> list_all prerelease_identifier (split_on CHR ''.'' p))
        in case map numeric_identifier (split_on CHR ''.'' core) of
             [Some ma, Some mi, Some pa] \<Rightarrow>
               if build_ok \<and> pre_ok \<and> ma \<le> MAX_SAFE_INTEGER \<and> mi \<le> MAX_SAFE_INTEGER
                  \<and> pa \<le> MAX_SAFE_INTEGER
               then Inr \<lparr>major = ma, minor = mi, patch = pa,
                         prerelease = (case pre of None \<Rightarrow> [] | Some p \<Rightarrow> split_on CHR ''.'' p)\<rparr>
               else Inl TypeError
           | _ \<Rightarrow> Inl TypeError)"

definition version_less :: "nat \<times> nat \<times> nat \<Rightarrow> nat \<times> nat \<times> nat \<Rightarrow> bool" where
  "version_less a b =
     (case (a, b) of ((a1, a2, a3), (b1, b2, b3)) \<Rightarrow>
        a1 < b1 \<or> (a1 = b1 \<and> (a2 < b2 \<or> (a2 = b2 \<and> a3 < b3))))"

definition caret_upper :: "nat \<times> nat \<times> nat \<Rightarrow> nat \<times> nat \<times> nat" where
  "caret_upper b =
     (case b of (ma, mi, pa) \<Rightarrow>
        if 0 < ma then (ma + 1, 0, 0)
        else if 0 < mi then (0, mi + 1, 0)
        else (0, 0, pa + 1))"

text \<open>
  A caret range of a version without pre-release tag: a version with a pre-release tag
  is outside it, any other version is inside when it lies between the base and the next
  breaking version.
\<close>

definition satisfies_caret :: "string \<Rightarrow> nat \<times> nat \<times> nat \<Rightarrow> error + bool" where
  "satisfies_caret version base =
     (if version = [] then Inr False
      else case semver_parse version of
        Inl e \<Rightarrow> Inl e
      | Inr v \<Rightarrow>
          Inr (prerelease v = []
               \<and> \<not> version_less (major v, minor v, patch v) base
               \<and> version_less (major v, minor v, patch v) (caret_upper base)))"

text \<open>Lines 32 to 34; \<^verbatim>\<open>&&\<close> does not read the version when the type differs.\<close>

definition canReuseAST :: "ast \<Rightarrow> error + bool" where
  "canReuseAST t =
     (if ast_type t = ''postcss'' then satisfies_caret (ast_version t) (7, 0, 0) else Inr False)"

section \<open>JSON serialisation\<close>

text \<open>
  \<^verbatim>\<open>JSON.stringify\<close> on a string, and on a token map with indentation 2. A token map
  is the list of its entries in property order; every value is a string.
\<close>

definition hex_digit :: "nat \<Rightarrow> char" where
  "hex_digit n = ''0123456789abcdef'' ! n"

definition json_escape :: "char \<Rightarrow> string" where
  "json_escape c =
     (if c = CHR 0x22 then [CHR 0x5C, CHR 0x22]
      else if c = CHR 0x5C then [CHR 0x5C, CHR 0x5C]
      else if c = CHR 0x08 then [CHR 0x5C, CHR ''b'']
      else if c = CHR 0x0C then [CHR 0x5C, CHR ''f'']
      else if c = CHR 0x0A then [CHR 0x5C, CHR ''n'']
      else if c = CHR 0x0D then [CHR 0x5C, CHR ''r'']
      else if c = CHR 0x09 then [CHR 0x5C, CHR ''t'']
      else if (of_char c :: nat) < 32
        then [CHR 0x5C, CHR ''u'', CHR ''0'', CHR ''0'',
              hex_digit ((of_char c :: nat) div 16), hex_digit ((of_char c :: nat) mod 16)]
      else [c])"

definition JSON_stringify_string :: "string \<Rightarrow> string" where
  "JSON_stringify_string s = [CHR 0x22] @ concat (map json_escape s) @ [CHR 0x22]"

fun join :: "string \<Rightarrow> string list \<Rightarrow> string" where
  "join sep [] = []"
| "join sep [x] = x"
| "join sep (x # y # ys) = x @ sep @ join sep (y # ys)"

definition JSON_stringify_tokens :: "tokens \<Rightarrow> string" where
  "JSON_stringify_tokens json =
     (if json = [] then ''{}''
      else ''{'' @ [CHR 0x0A] @
           join ('','' @ [CHR 0x0A])
             (map (\<lambda>(k, v). ''  '' @ JSON_stringify_string k @ '': '' @ JSON_stringify_string v)
                  json) @
           [CHR 0x0A] @ ''}'')"

section \<open>Virtual module loader\<close>

record load_result =
  injectableSource :: string
  exportTokens :: tokens

text \<open>
  The collaborators of the loader: the resolver of the pipeline, \<^verbatim>\<open>asset.fs.readFile\<close>,
  \<^verbatim>\<open>path.resolve\<close> and \<^verbatim>\<open>path.dirname\<close> of the platform, and \<^verbatim>\<open>core.load\<close> of the
  tokenizer, which is given the nested resolver and may call it. A resolver that does
  not return has the value \<open>None\<close>.
\<close>

record loader_env =
  resolve :: "string \<Rightarrow> string \<Rightarrow> error + string"
  readFile :: "string \<Rightarrow> error + string"
  path_resolve :: "string list \<Rightarrow> string"
  path_dirname :: "string \<Rightarrow> string"
  core_load :: "string \<Rightarrow> string \<Rightarrow> (string \<Rightarrow> string \<Rightarrow> (error + tokens) option)
                  \<Rightarrow> (error + load_result) option"

definition is_quote :: "char \<Rightarrow> bool" where
  "is_quote c = (c = CHR 0x22 \<or> c = CHR 0x27)"

text \<open>
  \<^verbatim>\<open>composesPath.replace(/^["']|["']$/g, '')\<close>: the first alternative removes a quote at
  index 0, the second a quote that is the last character of what is left to scan.
\<close>

definition strip_quotes :: "string \<Rightarrow> string" where
  "strip_quotes s =
     (let s1 = (case s of [] \<Rightarrow> [] | c # cs \<Rightarrow> if is_quote c then cs else s)
      in if s1 \<noteq> [] \<and> is_quote (last s1) then butlast s1 else s1)"

text \<open>Lines 170 to 176: the path handed to the tokenizer.\<close>

definition rootRelativePath_of :: "loader_env \<Rightarrow> string \<Rightarrow> string \<Rightarrow> string" where
  "rootRelativePath_of env relativeTo resolved =
     (let rootRelativePath = path_resolve env [path_dirname env relativeTo, resolved];
          root = path_resolve env [''/'']
      in if prefix root rootRelativePath
         then drop (length root) rootRelativePath
         else rootRelativePath)"

text \<open>
  \<^verbatim>\<open>fetch\<close> calls the tokenizer with itself as the nested resolver, so a cycle of
  \<^verbatim>\<open>composes\<close> imports never returns; the first argument bounds the nesting depth and
  \<open>None\<close> is a call that has not returned within it.
\<close>

fun fetch :: "loader_env \<Rightarrow> nat \<Rightarrow> string \<Rightarrow> string \<Rightarrow> (error + tokens) option" where
  "fetch env 0 composesPath relativeTo = None"
| "fetch env (Suc n) composesPath relativeTo =
     (let importPath = strip_quotes composesPath in
      case resolve env relativeTo importPath of
        Inl e \<Rightarrow> Some (Inl e)
      | Inr resolved \<Rightarrow>
          (let rootRelativePath = rootRelativePath_of env relativeTo resolved in
           case readFile env resolved of
             Inl e \<Rightarrow> Some (Inl e)
           | Inr source \<Rightarrow>
               (case core_load env source rootRelativePath (fetch env n) of
                  None \<Rightarrow> None
                | Some (Inl e) \<Rightarrow> Some (Inl e)
                | Some (Inr r) \<Rightarrow> Some (Inr (exportTokens r)))))"

definition finalSource :: string where
  "finalSource = ''''"

section \<open>The transformer\<close>

text \<open>
  \<^verbatim>\<open>config.hydrated.modules\<close> is absent, a boolean or the caller's options object (whose
  content only the plug-in reads).
\<close>

datatype modules_setting = ModulesAbsent | ModulesFlag bool | ModulesOptions

definition truthy :: "modules_setting \<Rightarrow> bool" where
  "truthy m = (case m of ModulesAbsent \<Rightarrow> False | ModulesFlag b \<Rightarrow> b | ModulesOptions \<Rightarrow> True)"

text \<open>
  A plug-in of the chain is opaque but for the injected CSS-Modules plug-in, which
  carries the loader, the default name generator and the caller's options.
\<close>

datatype plugin =
    Plugin string
  | PostcssModules "nat \<Rightarrow> string \<Rightarrow> string \<Rightarrow> (error + tokens) option"
                   "string \<Rightarrow> string \<Rightarrow> string \<Rightarrow> string" modules_setting

record hydrated =
  plugins :: "plugin list"
  modules :: modules_setting

record config =
  hydrated :: hydrated

record message =
  msg_type :: string
  msg_file :: string

text \<open>
  What a run of the plug-in chain does: the token maps it hands to the \<^verbatim>\<open>getJSON\<close>
  callback of the transformer, in order; the tree it was given as the run leaves it (the
  plug-ins work in place on the tree they are given, also those that ran before one that
  fails); and either the error it throws or its messages and the tree of its result.
\<close>

record process_result =
  getJSON_calls :: "tokens list"
  in_place :: css_root
  outcome :: "error + message list \<times> css_root"

text \<open>
  The collaborators of the transformer: \<^verbatim>\<open>postcss-value-parser\<close>, \<^verbatim>\<open>md5FromString\<close>,
  \<^verbatim>\<open>options.packageManager.require('postcss-modules', ...)\<close> (\<open>Some e\<close> when it throws),
  \<^verbatim>\<open>postcss(plugins).process\<close>, \<^verbatim>\<open>postcss.parse\<close> and the collaborators of the loader.
\<close>

record env =
  valueParser :: "string \<Rightarrow> vnode list"
  md5FromString :: "string \<Rightarrow> string"
  require_postcssModules :: "error option"
  process :: "plugin list \<Rightarrow> css_root \<Rightarrow> hydrated \<Rightarrow> process_result"
  postcss_parse :: "string \<Rightarrow> string \<Rightarrow> error + css_root"
  loader :: loader_env

text \<open>Lines 67 and 68; \<^verbatim>\<open>substr(0, 5)\<close> keeps the first five characters.\<close>

definition generateScopedName :: "(string \<Rightarrow> string) \<Rightarrow> string \<Rightarrow> string \<Rightarrow> string \<Rightarrow> string" where
  "generateScopedName md5 name filename css =
     ''_'' @ name @ ''_'' @ take 5 (md5 (filename @ css))"

text \<open>Lines 36 to 48.\<close>

definition parse :: "env \<Rightarrow> asset \<Rightarrow> config option \<Rightarrow> error + ast option" where
  "parse env a cfg =
     (case cfg of
        None \<Rightarrow> Inr None
      | Some c \<Rightarrow>
          (case postcss_parse env (getCode a) (filePath a) of
             Inl e \<Rightarrow> Inl e
           | Inr root \<Rightarrow>
               Inr (Some \<lparr>ast_type = ''postcss'', ast_version = ''7.0.0'', program = root\<rparr>)))"

text \<open>An asset created by the transformer (lines 141 to 145).\<close>

record new_asset =
  na_type :: string
  na_filePath :: string
  na_content :: string

text \<open>An element of the returned array: the asset itself or a new asset.\<close>

datatype out_asset = Original | NewAsset new_asset

text \<open>Lines 55 to 72: the plug-in list, with the CSS-Modules plug-in when enabled.\<close>

definition plugin_list :: "env \<Rightarrow> config \<Rightarrow> error + plugin list" where
  "plugin_list env c =
     (if truthy (modules (hydrated c)) then
        (case require_postcssModules env of
           Some e \<Rightarrow> Inl e
         | None \<Rightarrow>
             Inr (plugins (hydrated c) @
                  [PostcssModules (fetch (loader env)) (generateScopedName (md5FromString env))
                     (modules (hydrated c))]))
      else Inr (plugins (hydrated c)))"

text \<open>Lines 129 to 139: the text of the companion script.\<close>

definition companion_content :: "tokens \<Rightarrow> dependency list \<Rightarrow> string" where
  "companion_content json all_deps =
     (let code = JSON_stringify_tokens json;
          deps = filter (\<lambda>dep. \<not> isURL dep) all_deps
      in if length deps > 0 then
           [CHR 0x0A] @ ''          module.exports = Object.assign({}, '' @
           join '', '' (map (\<lambda>dep. ''require('' @ JSON_stringify_string (moduleSpecifier dep) @ '')'')
                            deps) @
           '', '' @ code @ '');'' @ [CHR 0x0A] @ ''        ''
         else ''module.exports = '' @ code @ '';'')"

text \<open>Lines 112 to 125.\<close>

definition register_messages :: "message list \<Rightarrow> asset \<Rightarrow> asset" where
  "register_messages messages a =
     fold (\<lambda>msg s. if msg_type msg = ''dependency'' then addIncludedFile (msg_file msg) s else s)
          messages a"

text \<open>Lines 127 to 147.\<close>

definition output_assets :: "asset \<Rightarrow> out_asset list" where
  "output_assets a =
     (case cssModules a of
        None \<Rightarrow> [Original]
      | Some json \<Rightarrow>
          [Original,
           NewAsset \<lparr>na_type = ''js'', na_filePath = filePath a @ ''.js'',
                     na_content = companion_content json (getDependencies a)\<rparr>])"

text \<open>
  \<^verbatim>\<open>transform\<close>: the asset as the call leaves it, and the array it returns or the error
  it throws. What was written to the asset before an error stays written. The chain is
  handed \<^verbatim>\<open>ast.program\<close>, the tree of the asset itself, so the asset holds the tree as
  the chain leaves it.
\<close>

definition transform :: "env \<Rightarrow> asset \<Rightarrow> config option \<Rightarrow> asset \<times> (error + out_asset list)" where
  "transform env a cfg =
     (case cfg of
        None \<Rightarrow> (a, Inr [Original])
      | Some c \<Rightarrow>
          (case plugin_list env c of
             Inl e \<Rightarrow> (a, Inl e)
           | Inr ps \<Rightarrow>
               (case getAST a of
                  None \<Rightarrow> (a, Inl NullthrowsError)
                | Some t \<Rightarrow>
                    (case extract_composes (valueParser env) t a of
                       (a1, Some e) \<Rightarrow> (a1, Inl e)
                     | (a1, None) \<Rightarrow>
                         (let run = process env ps (program t) (hydrated c);
                              a2 = fold (\<lambda>json s. s\<lparr>cssModules := Some json\<rparr>) (getJSON_calls run)
                                     (a1\<lparr>pipeline_runs := pipeline_runs a1 + 1,
                                         ast := Some (t\<lparr>program := in_place run\<rparr>)\<rparr>)
                          in case outcome run of
                               Inl e \<Rightarrow> (a2, Inl e)
                             | Inr (messages, root) \<Rightarrow>
                                 (let a3 = setAST \<lparr>ast_type = ''postcss'',
                                                    ast_version = ''7.0.0'',
                                                    program = root\<rparr> a2;
                                      a4 = register_messages messages a3
                                  in (a4, Inr (output_assets a4))))))))"

section \<open>Notions used to state the properties\<close>

text \<open>The nodes \<open>walk\<close> visits, in the order of the visits.\<close>

fun visited :: "vnode list \<Rightarrow> vnode list" where
  "visited [] = []"
| "visited (VNode t v args # ns) =
     VNode t v args # (if t = ''function'' then visited args else []) @ visited ns"

text \<open>The declarations \<open>walkDecls\<close> visits, in the order of the visits.\<close>

fun decls_of :: "css_node list \<Rightarrow> decl list" where
  "decls_of [] = []"
| "decls_of (Decl d # ns) = d # decls_of ns"
| "decls_of (Rule sel children # ns) = decls_of children @ decls_of ns"
| "decls_of (AtRule name params children # ns) = decls_of children @ decls_of ns"
| "decls_of (Comment c # ns) = decls_of ns"

text \<open>The number of string tokens of a parsed value.\<close>

definition string_tokens :: "vnode list \<Rightarrow> nat" where
  "string_tokens ns = length (filter (\<lambda>node. vtype node = ''string'') (visited ns))"

text \<open>
  The dependency the transformer registers for a string token of a declaration that has
  a source, and the dependencies it registers for such a declaration.
\<close>

definition composes_dependency :: "decl \<Rightarrow> string \<Rightarrow> dependency" where
  "composes_dependency d importPath =
     \<lparr>moduleSpecifier = importPath,
      loc = (case composes_loc d importPath of Inl e \<Rightarrow> None | Inr l \<Rightarrow> Some l),
      isURL = False\<rparr>"

definition composes_registrations :: "(string \<Rightarrow> vnode list) \<Rightarrow> decl \<Rightarrow> dependency list" where
  "composes_registrations parser d =
     (case importPath_of (decl_value d) of
        None \<Rightarrow> []
      | Some importPath \<Rightarrow>
          if decl_prop d = ''composes''
          then replicate (string_tokens (parser (decl_value d)))
                 (composes_dependency d importPath)
          else [])"

text \<open>The dependencies a step has added to an asset.\<close>

definition registered :: "asset \<Rightarrow> asset \<Rightarrow> dependency list" where
  "registered before after = drop (length (dependencies before)) (dependencies after)"

text \<open>
  The position a text ends at when it starts at a given position: a line feed starts a
  new line at column 1. The value of a declaration starts where its property and the
  text between property and value end.
\<close>

fun advance :: "position \<Rightarrow> string \<Rightarrow> position" where
  "advance p [] = p"
| "advance p (c # cs) =
     advance (if c = CHR 0x0A then \<lparr>line = line p + 1, column = 1\<rparr>
              else p\<lparr>column := column p + 1\<rparr>) cs"

definition value_start :: "decl \<Rightarrow> position option" where
  "value_start d =
     map_option (\<lambda>start. advance start (decl_prop d @ between d)) (source_start d)"

section \<open>Examples\<close>

text \<open>\<^verbatim>\<open>composes: foo from './a.css'\<close> on line 2 of a stylesheet, and its parsed value.\<close>

definition composes_from_decl :: decl where
  "composes_from_decl =
     \<lparr>decl_prop = ''composes'', between = '': '',
      decl_value = ''foo from './a.css'' @ [CHR 0x27],
      source_start = Some \<lparr>line = 2, column = 3\<rparr>\<rparr>"

definition composes_from_parsed :: "vnode list" where
  "composes_from_parsed =
     [VNode ''word'' ''foo'' [], VNode ''space'' '' '' [], VNode ''word'' ''from'' [],
      VNode ''space'' '' '' [], VNode ''string'' ''./a.css'' []]"

text \<open>\<^verbatim>\<open>composes: bar\<close>, a composition within the file.\<close>

definition composes_local_decl :: decl where
  "composes_local_decl =
     \<lparr>decl_prop = ''composes'', between = '': '', decl_value = ''bar'',
      source_start = Some \<lparr>line = 5, column = 3\<rparr>\<rparr>"

text \<open>\<^verbatim>\<open>composes: a from "./x.css", b from "./x.css"\<close>: two string tokens.\<close>

definition composes_two_decl :: decl where
  "composes_two_decl =
     \<lparr>decl_prop = ''composes'', between = '': '',
      decl_value = ''a from '' @ [CHR 0x22] @ ''./x.css'' @ [CHR 0x22] @ '', b from '' @
                   [CHR 0x22] @ ''./x.css'' @ [CHR 0x22],
      source_start = Some \<lparr>line = 8, column = 3\<rparr>\<rparr>"

definition composes_two_parsed :: "vnode list" where
  "composes_two_parsed =
     [VNode ''word'' ''a'' [], VNode ''space'' '' '' [], VNode ''word'' ''from'' [],
      VNode ''space'' '' '' [], VNode ''string'' ''./x.css'' [], VNode ''div'' '','' [],
      VNode ''word'' ''b'' [], VNode ''space'' '' '' [], VNode ''word'' ''from'' [],
      VNode ''space'' '' '' [], VNode ''string'' ''./x.css'' []]"

text \<open>A value parser that knows the three values above.\<close>

definition example_valueParser :: "string \<Rightarrow> vnode list" where
  "example_valueParser v =
     (if v = decl_value composes_from_decl then composes_from_parsed
      else if v = decl_value composes_two_decl then composes_two_parsed
      else [VNode ''word'' v []])"

text \<open>The stylesheet \<^verbatim>\<open>/proj/src/main.css\<close> with the first two declarations.\<close>

definition example_root :: css_root where
  "example_root =
     [Rule ''.a'' [Decl composes_from_decl],
      Rule ''.b'' [Decl composes_local_decl]]"

definition example_code :: string where
  "example_code =
     ''.a {'' @ [CHR 0x0A] @ ''  composes: foo from './a.css';'' @ [CHR 0x0A] @ ''}'' @ [CHR 0x0A] @
     ''.b {'' @ [CHR 0x0A] @ ''  composes: bar;'' @ [CHR 0x0A] @ ''}'' @ [CHR 0x0A]"

definition example_asset :: asset where
  "example_asset =
     \<lparr>filePath = ''/proj/src/main.css'', code = example_code,
      ast = Some \<lparr>ast_type = ''postcss'', ast_version = ''7.0.0'', program = example_root\<rparr>,
      astDirty = False, cssModules = None, dependencies = [], includedFiles = [],
      committed = [], pipeline_runs = 0\<rparr>"

text \<open>A stand-in for the digest: 32 hexadecimal characters computed from the text.\<close>

definition example_md5 :: "string \<Rightarrow> string" where
  "example_md5 s =
     [hex_digit (length s mod 16), hex_digit (sum_list (map of_char s) mod 16)] @
     replicate 30 (CHR ''0'')"

text \<open>
  A file system with \<^verbatim>\<open>/proj/src/b.css\<close>, which composes from \<^verbatim>\<open>./c.css\<close>, and
  \<^verbatim>\<open>/proj/src/c.css\<close>; \<^verbatim>\<open>path.resolve\<close> is given an absolute last argument in these
  examples and returns it with one leading root marker. The tokenizer asks the nested
  resolver for the import of \<^verbatim>\<open>b.css\<close> and appends the scoped name it gets.
\<close>

definition b_css :: string where
  "b_css = ''.b { composes: c from '' @ [CHR 0x22] @ ''./c.css'' @ [CHR 0x22] @ ''; }''"

definition c_css :: string where
  "c_css = ''.c { color: red; }''"

definition example_core_load ::
  "string \<Rightarrow> string \<Rightarrow> (string \<Rightarrow> string \<Rightarrow> (error + tokens) option)
     \<Rightarrow> (error + load_result) option" where
  "example_core_load source path nested =
     (if source = b_css then
        (case nested ([CHR 0x22] @ ''./c.css'' @ [CHR 0x22]) (''/'' @ path) of
           None \<Rightarrow> None
         | Some (Inl e) \<Rightarrow> Some (Inl e)
         | Some (Inr ts) \<Rightarrow>
             Some (Inr \<lparr>injectableSource = ''._b_1 {}'',
                        exportTokens = [(''b'', ''_b_1 '' @ concat (map snd ts))]\<rparr>))
      else if source = c_css then
        Some (Inr \<lparr>injectableSource = ''._c_1 { color: red; }'',
                   exportTokens = [(''c'', ''_c_1'')]\<rparr>)
      else Some (Inl (Thrown ''CssSyntaxError'')))"

definition posix_resolve :: "string list \<Rightarrow> string" where
  "posix_resolve args = ''/'' @ dropWhile (\<lambda>c. c = CHR ''/'') (last args)"

definition posix_dirname :: "string \<Rightarrow> string" where
  "posix_dirname p =
     (let d = rev (drop 1 (dropWhile (\<lambda>c. c \<noteq> CHR ''/'') (rev p)))
      in if d = [] then ''/'' else d)"

definition example_loader_env :: loader_env where
  "example_loader_env =
     \<lparr>resolve = (\<lambda>relativeTo specifier.
        if specifier = ''./b.css'' then Inr ''/proj/src/b.css''
        else if specifier = ''./c.css'' then Inr ''/proj/src/c.css''
        else Inl (Thrown ''cannot resolve'')),
      readFile = (\<lambda>p.
        if p = ''/proj/src/b.css'' then Inr b_css
        else if p = ''/proj/src/c.css'' then Inr c_css
        else Inl (Thrown ''ENOENT'')),
      path_resolve = posix_resolve,
      path_dirname = posix_dirname,
      core_load = example_core_load\<rparr>"

text \<open>The same system with paths written without the leading root marker.\<close>

definition unrooted_resolve :: "string list \<Rightarrow> string" where
  "unrooted_resolve args =
     (if args = [''/''] then ''/'' else dropWhile (\<lambda>c. c = CHR ''/'') (last args))"

definition unrooted_loader_env :: loader_env where
  "unrooted_loader_env = example_loader_env\<lparr>path_resolve := unrooted_resolve\<rparr>"

text \<open>
  A plug-in chain: it fails when it holds the plug-in \<^verbatim>\<open>failing\<close>, which has by then
  put a comment at the head of the tree. The CSS-Modules plug-in comes last in the chain:
  when the chain reaches it, it hands over the token map \<^verbatim>\<open>{a: "_a_1"}\<close>, or the
  empty map when the chain holds \<^verbatim>\<open>no-classes\<close>. One message names a file that was
  read.
\<close>

definition plugin_name :: "plugin \<Rightarrow> string" where
  "plugin_name p = (case p of Plugin n \<Rightarrow> n | PostcssModules l g m \<Rightarrow> ''postcss-modules'')"

definition example_process :: "plugin list \<Rightarrow> css_root \<Rightarrow> hydrated \<Rightarrow> process_result" where
  "example_process ps root h =
     \<lparr>getJSON_calls =
        (if truthy (modules h) \<and> ''failing'' \<notin> set (map plugin_name ps)
         then [if ''no-classes'' \<in> set (map plugin_name ps) then [] else [(''a'', ''_a_1'')]]
         else []),
      in_place =
        (if ''failing'' \<in> set (map plugin_name ps) then Comment ''prefixed'' # root else root),
      outcome =
        (if ''failing'' \<in> set (map plugin_name ps) then Inl (Thrown ''plugin failed'')
         else Inr ([\<lparr>msg_type = ''dependency'', msg_file = ''/proj/src/vars.css''\<rparr>,
                    \<lparr>msg_type = ''warning'', msg_file = ''''\<rparr>], root))\<rparr>"

definition example_env :: env where
  "example_env =
     \<lparr>valueParser = example_valueParser,
      md5FromString = example_md5,
      require_postcssModules = None,
      process = example_process,
      postcss_parse = (\<lambda>css from.
        if css = example_code then Inr example_root else Inl (Thrown ''CssSyntaxError'')),
      loader = example_loader_env\<rparr>"

definition modules_config :: config where
  "modules_config = \<lparr>hydrated = \<lparr>plugins = [Plugin ''autoprefixer''], modules = ModulesFlag True\<rparr>\<rparr>"

definition plain_config :: config where
  "plain_config = \<lparr>hydrated = \<lparr>plugins = [Plugin ''autoprefixer''], modules = ModulesAbsent\<rparr>\<rparr>"

definition no_classes_config :: config where
  "no_classes_config =
     \<lparr>hydrated = \<lparr>plugins = [Plugin ''no-classes''], modules = ModulesFlag True\<rparr>\<rparr>"

definition failing_config :: config where
  "failing_config =
     \<lparr>hydrated = \<lparr>plugins = [Plugin ''failing''], modules = ModulesFlag True\<rparr>\<rparr>"

text \<open>The state a successful run leaves, and what it returns.\<close>

definition finished :: "asset \<Rightarrow> tokens list \<Rightarrow> message list \<Rightarrow> css_root \<Rightarrow> asset" where
  "finished a1 js ms root =
     a1\<lparr>pipeline_runs := pipeline_runs a1 + 1,
        cssModules := (if js = [] then cssModules a1 else Some (last js)),
        ast := Some \<lparr>ast_type = ''postcss'', ast_version = ''7.0.0'', program = root\<rparr>,
        astDirty := True,
        committed := committed a1 @
          [\<lparr>ast_type = ''postcss'', ast_version = ''7.0.0'', program = root\<rparr>],
        includedFiles := includedFiles a1 @
          map msg_file (filter (\<lambda>m. msg_type m = ''dependency'') ms)\<rparr>"

text \<open>
  \<^verbatim>\<open>composes : foo from './a.css'\<close> with a space before the colon, in an asset whose
  code is in sync with the tree, and in one whose tree is dirty.
\<close>

definition spaced_decl :: decl where
  "spaced_decl = composes_from_decl\<lparr>between := '' : ''\<rparr>"

definition spaced_code :: string where
  "spaced_code = ''.a { composes : foo from './a.css'; }''"

definition spaced_asset :: asset where
  "spaced_asset =
     example_asset\<lparr>code := spaced_code,
       ast := Some \<lparr>ast_type = ''postcss'', ast_version = ''7.0.0'',
                    program = [Rule ''.a'' [Decl spaced_decl]]\<rparr>\<rparr>"

definition dirty_asset :: asset where
  "dirty_asset = spaced_asset\<lparr>astDirty := True\<rparr>"


text \<open>
  A dirty tree in which a plug-in has put a \<^verbatim>\<open>composes\<close> declaration without source
  after the declaration of the stylesheet.
\<close>

definition sourceless_decl :: decl where
  "sourceless_decl = composes_from_decl\<lparr>source_start := None\<rparr>"

definition sourceless_asset :: asset where
  "sourceless_asset =
     example_asset\<lparr>astDirty := True,
       ast := Some \<lparr>ast_type = ''postcss'', ast_version = ''7.0.0'',
                    program = [Rule ''.a'' [Decl composes_from_decl, Decl sourceless_decl]]\<rparr>\<rparr>"

text \<open>\<^verbatim>\<open>.a { color: red; }\<close>, without and with dependencies registered earlier.\<close>

definition simple_asset :: asset where
  "simple_asset =
     \<lparr>filePath = ''/proj/src/s.css'', code = ''.a { color: red; }'',
      ast = Some \<lparr>ast_type = ''postcss'', ast_version = ''7.0.0'',
                   program = [Rule ''.a'' [Decl \<lparr>decl_prop = ''color'', between = '': '',
                     decl_value = ''red'', source_start = Some \<lparr>line = 1, column = 6\<rparr>\<rparr>]]\<rparr>,
      astDirty = False, cssModules = None, dependencies = [], includedFiles = [],
      committed = [], pipeline_runs = 0\<rparr>"

definition simple_asset_with_deps :: asset where
  "simple_asset_with_deps =
     simple_asset\<lparr>dependencies :=
       [\<lparr>moduleSpecifier = ''./x.css'', loc = None, isURL = False\<rparr>,
        \<lparr>moduleSpecifier = ''./img.png'', loc = None, isURL = True\<rparr>,
        \<lparr>moduleSpecifier = ''./y.css'', loc = None, isURL = False\<rparr>]\<rparr>"

text \<open>
  The meaning of \<^verbatim>\<open>Object.assign({}, s1, ..., sn)\<close> on objects with string values: the
  properties of the sources are copied from left to right, so a later source overrides
  an earlier one.
\<close>

definition object_assign :: "(string \<rightharpoonup> string) list \<Rightarrow> (string \<rightharpoonup> string)" where
  "object_assign sources = foldl (++) Map.empty sources"

section \<open>Properties of the matcher\<close>

declare rmatch.simps(6) [simp del]









section \<open>The import path of a well-formed value\<close>

declare rmatch.simps(4) [simp del]

lemma rmatch_Dot_Cons:
  "rmatch Dot (x # xs, cs) = (if line_terminator x then [] else [(xs, cs)])"
  by simp

lemma rmatch_Space_Cons:
  "rmatch Space (x # xs, cs) = (if white_space x then [(xs, cs)] else [])"
  by simp


























declare rmatch.simps(4) [simp]

section \<open>Properties of the extraction\<close>

text \<open>A callback that never throws makes \<open>walk\<close> a fold over the nodes it visits.\<close>

lemma walk_no_error:
  assumes "\<And>n s. cb n s = (f n s, None)"
  shows "walk ns cb s = (fold f (visited ns) s, None)"
  using assms
  by (induction ns cb s rule: walk.induct) auto

text \<open>A callback that throws on some nodes and changes nothing ends the walk there.\<close>

lemma walk_throwing:
  "walk ns (\<lambda>node s. if P node then (s, Some e) else (s, None)) s =
     (s, if filter P (visited ns) = [] then None else Some e)"
  by (induction ns "\<lambda>node s::'a. if P node then (s, Some e) else (s, None)" s
      rule: walk.induct) auto

lemma walkDecls_no_error:
  assumes "\<forall>d \<in> set (decls_of ns). \<forall>s. snd (cb d s) = None"
  shows "walkDecls ns cb s = (fold (\<lambda>d s. fst (cb d s)) (decls_of ns) s, None)"
  using assms
proof (induction ns cb s rule: walkDecls.induct)
  case (1 cb s)
  then show ?case by simp
next
  case (2 d ns cb s)
  obtain s1 r where c: "cb d s = (s1, r)" by (cases "cb d s")
  from "2.prems" have "snd (cb d s) = None" by simp
  with c have r: "r = None" by simp
  from "2.prems" have rest: "\<forall>d \<in> set (decls_of ns). \<forall>s. snd (cb d s) = None" by simp
  from "2.IH" c r rest have "walkDecls ns cb s1 =
      (fold (\<lambda>d s. fst (cb d s)) (decls_of ns) s1, None)"
    by auto
  with c r show ?case by simp
next
  case (3 sel children ns cb s)
  from "3.prems" have ch: "\<forall>d \<in> set (decls_of children). \<forall>s. snd (cb d s) = None"
    and rest: "\<forall>d \<in> set (decls_of ns). \<forall>s. snd (cb d s) = None"
    by simp_all
  from "3.IH"(1)[OF ch] have w: "walkDecls children cb s =
      (fold (\<lambda>d s. fst (cb d s)) (decls_of children) s, None)" .
  from "3.IH"(2) w rest have "walkDecls ns cb (fold (\<lambda>d s. fst (cb d s)) (decls_of children) s) =
      (fold (\<lambda>d s. fst (cb d s)) (decls_of ns)
         (fold (\<lambda>d s. fst (cb d s)) (decls_of children) s), None)"
    by auto
  with w show ?case by simp
next
  case (4 name params children ns cb s)
  from "4.prems" have ch: "\<forall>d \<in> set (decls_of children). \<forall>s. snd (cb d s) = None"
    and rest: "\<forall>d \<in> set (decls_of ns). \<forall>s. snd (cb d s) = None"
    by simp_all
  from "4.IH"(1)[OF ch] have w: "walkDecls children cb s =
      (fold (\<lambda>d s. fst (cb d s)) (decls_of children) s, None)" .
  from "4.IH"(2) w rest have "walkDecls ns cb (fold (\<lambda>d s. fst (cb d s)) (decls_of children) s) =
      (fold (\<lambda>d s. fst (cb d s)) (decls_of ns)
         (fold (\<lambda>d s. fst (cb d s)) (decls_of children) s), None)"
    by auto
  with w show ?case by simp
next
  case (5 c ns cb s)
  then show ?case by simp
qed

lemma fold_addDependency:
  "fold (\<lambda>node s. if vtype node = ''string'' then addDependency p l s else s) xs a =
     a\<lparr>dependencies := dependencies a @
          replicate (length (filter (\<lambda>node. vtype node = ''string'') xs))
            \<lparr>moduleSpecifier = p, loc = Some l, isURL = False\<rparr>\<rparr>"
proof (induction xs arbitrary: a)
  case Nil
  then show ?case by simp
next
  case (Cons x xs)
  then show ?case
    by (simp add: addDependency_def replicate_app_Cons_same)
qed

text \<open>What the callback of \<^verbatim>\<open>walkDecls\<close> does on a declaration with a source.\<close>

lemma composes_decl_registers:
  assumes "source_start d = Some start"
  shows "composes_decl vp d a =
         (a\<lparr>dependencies := dependencies a @ composes_registrations vp d\<rparr>, None)"
proof (cases "importPath_of (decl_value d)")
  case None
  then show ?thesis by (simp add: composes_decl_def composes_registrations_def)
next
  case (Some p)
  obtain l where l: "composes_loc d p = Inr l"
    using assms by (simp add: composes_loc_def)
  have cb: "composes_node d p n s =
            ((if vtype n = ''string'' then addDependency p l s else s), None)" for n s
    by (simp add: composes_node_def l)
  show ?thesis
    using Some l
    by (simp add: composes_decl_def composes_registrations_def walk_no_error[of _ _, OF cb]
        fold_addDependency string_tokens_def composes_dependency_def)
qed

text \<open>
  On a declaration without source the callback registers nothing, and throws when it
  reaches a string token.
\<close>

lemma composes_decl_sourceless:
  assumes "source_start d = None"
  shows "composes_decl vp d a =
         (a, if importPath_of (decl_value d) \<noteq> None \<and> decl_prop d = ''composes''
                \<and> string_tokens (vp (decl_value d)) \<noteq> 0
             then Some TypeError else None)"
proof (cases "importPath_of (decl_value d)")
  case None
  then show ?thesis by (simp add: composes_decl_def)
next
  case (Some p)
  have cb: "composes_node d p =
            (\<lambda>node s. if vtype node = ''string'' then (s, Some TypeError) else (s, None))"
    using assms by (intro ext) (simp add: composes_node_def composes_loc_def)
  show ?thesis
    using Some by (simp add: composes_decl_def cb walk_throwing string_tokens_def)
qed

lemma registered_composes_decl:
  "registered a (fst (composes_decl vp d a)) =
     (if source_start d = None then [] else composes_registrations vp d)"
proof (cases "source_start d")
  case None
  then show ?thesis by (simp add: composes_decl_sourceless registered_def)
next
  case (Some start)
  then show ?thesis by (simp add: composes_decl_registers registered_def)
qed

lemmas regex_eval = FROM_IMPORT_RE_def COMPOSES_RE_def plus_def from_kw_def composes_kw_def
  quote_def line_terminator_def white_space_def rmatch.simps(6) importPath_of_def test_def

lemma importPath_composes_from [simp]:
  "importPath_of (decl_value composes_from_decl) = Some ''./a.css''"
  by (simp add: composes_from_decl_def regex_eval)

lemma importPath_composes_two [simp]:
  "importPath_of (decl_value composes_two_decl) = Some ''./x.css''"
  by (simp add: composes_two_decl_def regex_eval)

lemma importPath_composes_local [simp]:
  "importPath_of (decl_value composes_local_decl) = None"
  by (simp add: composes_local_decl_def regex_eval)

lemma test_example_code [simp]: "test COMPOSES_RE example_code"
  by (simp add: example_code_def regex_eval)

lemma registrations_composes_from:
  "composes_registrations example_valueParser composes_from_decl =
   [composes_dependency composes_from_decl ''./a.css'']"
  by (simp add: composes_registrations_def composes_from_decl_def[THEN arg_cong[of _ _ decl_prop]]
      string_tokens_def example_valueParser_def composes_from_parsed_def)

lemma registered_composes_from:
  "registered example_asset
     (fst (composes_decl example_valueParser composes_from_decl example_asset)) =
   [composes_dependency composes_from_decl ''./a.css'']"
  by (simp add: registered_composes_decl registrations_composes_from
      composes_from_decl_def[THEN arg_cong[of _ _ source_start]])

lemma loc_composes_from:
  "composes_loc composes_from_decl ''./a.css'' =
     Inr \<lparr>loc_filePath = ''./a.css'', loc_start = \<lparr>line = 2, column = 3\<rparr>,
          loc_end = \<lparr>line = 2, column = 10\<rparr>\<rparr>"
  by (simp add: composes_loc_def composes_from_decl_def)

text \<open>
  C4, as amended. Every dependency registered for a declaration carries a location that
  starts at the start of the declaration (\<^verbatim>\<open>decl.source.start\<close>, where the property
  name begins) and ends on the same line, at the start column plus the length of the
  import path.
\<close>

theorem composes_location_span:
  "\<forall>dep \<in> set (registered a (fst (composes_decl vp d a))).
     \<exists>l start. loc dep = Some l
       \<and> importPath_of (decl_value d) = Some (moduleSpecifier dep)
       \<and> source_start d = Some start
       \<and> loc_start l = start
       \<and> line (loc_end l) = line start
       \<and> column (loc_end l) = column start + length (moduleSpecifier dep)"
  by (auto simp: registered_composes_decl composes_registrations_def composes_dependency_def
      composes_loc_def split: option.splits if_splits)

theorem composes_location_span_witness:
  "registered example_asset
     (fst (composes_decl example_valueParser composes_from_decl example_asset)) =
     [composes_dependency composes_from_decl ''./a.css'']
   \<and> loc (composes_dependency composes_from_decl ''./a.css'') =
       Some \<lparr>loc_filePath = ''./a.css'', loc_start = \<lparr>line = 2, column = 3\<rparr>,
             loc_end = \<lparr>line = 2, column = 10\<rparr>\<rparr>
   \<and> source_start composes_from_decl = Some \<lparr>line = 2, column = 3\<rparr>"
proof -
  have l: "loc (composes_dependency composes_from_decl ''./a.css'') =
       Some \<lparr>loc_filePath = ''./a.css'', loc_start = \<lparr>line = 2, column = 3\<rparr>,
             loc_end = \<lparr>line = 2, column = 10\<rparr>\<rparr>"
    by (simp add: composes_dependency_def loc_composes_from)
  have s: "source_start composes_from_decl = Some \<lparr>line = 2, column = 3\<rparr>"
    by (simp add: composes_from_decl_def)
  show ?thesis
    using composes_location_span[of example_asset example_valueParser composes_from_decl]
      registered_composes_from l s
    by simp
qed

text \<open>
  C4, as stated, fails: for \<^verbatim>\<open>composes: foo from './a.css'\<close> at line 2, column 3, the
  value starts at column 13, and the location of the dependency starts at column 3.
\<close>

theorem composes_location_not_value_start:
  "registered example_asset
     (fst (composes_decl example_valueParser composes_from_decl example_asset)) =
     [composes_dependency composes_from_decl ''./a.css'']
   \<and> loc (composes_dependency composes_from_decl ''./a.css'') =
       Some \<lparr>loc_filePath = ''./a.css'', loc_start = \<lparr>line = 2, column = 3\<rparr>,
             loc_end = \<lparr>line = 2, column = 10\<rparr>\<rparr>
   \<and> value_start composes_from_decl = Some \<lparr>line = 2, column = 13\<rparr>
   \<and> map_option loc_start (loc (composes_dependency composes_from_decl ''./a.css'')) \<noteq>
       value_start composes_from_decl"
proof -
  have l: "loc (composes_dependency composes_from_decl ''./a.css'') =
       Some \<lparr>loc_filePath = ''./a.css'', loc_start = \<lparr>line = 2, column = 3\<rparr>,
             loc_end = \<lparr>line = 2, column = 10\<rparr>\<rparr>"
    by (simp add: composes_dependency_def loc_composes_from)
  have v: "value_start composes_from_decl = Some \<lparr>line = 2, column = 13\<rparr>"
    by (simp add: value_start_def composes_from_decl_def)
  have n: "map_option loc_start (loc (composes_dependency composes_from_decl ''./a.css'')) \<noteq>
       value_start composes_from_decl"
    unfolding l v by simp
  from registered_composes_from l v n show ?thesis by blast
qed

text \<open>
  C5. The location of a registered dependency should name the file under
  transformation; the transformer writes the import path there. For the asset
  \<^verbatim>\<open>/proj/src/main.css\<close> and \<^verbatim>\<open>composes: foo from './a.css'\<close> the location names
  \<^verbatim>\<open>./a.css\<close>, while its positions are positions of \<^verbatim>\<open>/proj/src/main.css\<close>.
\<close>

theorem composes_location_names_import_path:
  "registered example_asset
     (fst (composes_decl example_valueParser composes_from_decl example_asset)) =
     [composes_dependency composes_from_decl ''./a.css'']
   \<and> loc (composes_dependency composes_from_decl ''./a.css'') =
       Some \<lparr>loc_filePath = ''./a.css'', loc_start = \<lparr>line = 2, column = 3\<rparr>,
             loc_end = \<lparr>line = 2, column = 10\<rparr>\<rparr>
   \<and> filePath example_asset = ''/proj/src/main.css''
   \<and> map_option loc_filePath (loc (composes_dependency composes_from_decl ''./a.css'')) \<noteq>
       Some (filePath example_asset)"
proof -
  have l: "loc (composes_dependency composes_from_decl ''./a.css'') =
       Some \<lparr>loc_filePath = ''./a.css'', loc_start = \<lparr>line = 2, column = 3\<rparr>,
             loc_end = \<lparr>line = 2, column = 10\<rparr>\<rparr>"
    by (simp add: composes_dependency_def loc_composes_from)
  have f: "filePath example_asset = ''/proj/src/main.css''"
    by (simp add: example_asset_def)
  have n: "map_option loc_filePath (loc (composes_dependency composes_from_decl ''./a.css'')) \<noteq>
       Some (filePath example_asset)"
    unfolding l f by simp
  from registered_composes_from l f n show ?thesis by blast
qed

section \<open>Properties of the transformer\<close>

lemma fold_cssModules:
  "fold (\<lambda>json s. s\<lparr>cssModules := Some json\<rparr>) js a =
     a\<lparr>cssModules := (if js = [] then cssModules a else Some (last js))\<rparr>"
  by (induction js arbitrary: a) auto

lemma register_messages_includedFiles:
  "register_messages ms a =
     a\<lparr>includedFiles := includedFiles a @
          map msg_file (filter (\<lambda>m. msg_type m = ''dependency'') ms)\<rparr>"
  unfolding register_messages_def
  by (induction ms arbitrary: a) (auto simp: addIncludedFile_def)

text \<open>The three ways a call with a configuration, a plug-in list and a tree can end.\<close>

lemma transform_scan_throws:
  assumes "plugin_list env c = Inr ps" "getAST a = Some t"
    and "extract_composes (valueParser env) t a = (a1, Some e)"
  shows "transform env a (Some c) = (a1, Inl e)"
  using assms by (simp add: transform_def)

lemma transform_failure:
  assumes "plugin_list env c = Inr ps" "getAST a = Some t"
    and "extract_composes (valueParser env) t a = (a1, None)"
    and "outcome (process env ps (program t) (hydrated c)) = Inl e"
  shows "transform env a (Some c) =
     (a1\<lparr>pipeline_runs := pipeline_runs a1 + 1,
         ast := Some (t\<lparr>program := in_place (process env ps (program t) (hydrated c))\<rparr>),
         cssModules :=
           (if getJSON_calls (process env ps (program t) (hydrated c)) = []
            then cssModules a1
            else Some (last (getJSON_calls (process env ps (program t) (hydrated c)))))\<rparr>,
      Inl e)"
  using assms
  by (simp add: transform_def Let_def fold_cssModules)

lemma transform_success:
  assumes "plugin_list env c = Inr ps" "getAST a = Some t"
    and "extract_composes (valueParser env) t a = (a1, None)"
    and "outcome (process env ps (program t) (hydrated c)) = Inr (ms, root)"
  shows "transform env a (Some c) =
     (finished a1 (getJSON_calls (process env ps (program t) (hydrated c))) ms root,
      Inr (output_assets
        (finished a1 (getJSON_calls (process env ps (program t) (hydrated c))) ms root)))"
  using assms
  by (simp add: transform_def Let_def fold_cssModules register_messages_includedFiles
      setAST_def finished_def)

text \<open>The scan changes nothing of the asset but its dependencies, to which it appends.\<close>

lemma fst_composes_decl:
  "fst (composes_decl vp d s) =
     s\<lparr>dependencies := dependencies s @
          (if source_start d = None then [] else composes_registrations vp d)\<rparr>"
proof (cases "source_start d")
  case None
  then show ?thesis by (simp add: composes_decl_sourceless)
next
  case (Some start)
  then show ?thesis by (simp add: composes_decl_registers)
qed

lemma walkDecls_preserves:
  assumes "\<And>d s. P s \<Longrightarrow> P (fst (cb d s))" and "P s"
  shows "P (fst (walkDecls ns cb s))"
  using assms
proof (induction ns cb s rule: walkDecls.induct)
  case (1 cb s)
  then show ?case by simp
next
  case (2 d ns cb s)
  obtain s1 r where c: "cb d s = (s1, r)" by (cases "cb d s")
  from "2.prems"(1)[OF "2.prems"(2), of d] c have p1: "P s1" by simp
  show ?case
  proof (cases r)
    case None
    from "2.IH"[OF c[symmetric] None "2.prems"(1) p1]
    have "P (fst (walkDecls ns cb s1))" by simp
    with c None show ?thesis by simp
  next
    case (Some e)
    with c p1 show ?thesis by simp
  qed
next
  case (3 sel children ns cb s)
  obtain s1 r where c: "walkDecls children cb s = (s1, r)"
    by (cases "walkDecls children cb s")
  from "3.IH"(1)[OF "3.prems"] c have p1: "P s1" by simp
  show ?case
  proof (cases r)
    case None
    from "3.IH"(2)[OF c[symmetric] None "3.prems"(1) p1]
    have "P (fst (walkDecls ns cb s1))" by simp
    with c None show ?thesis by simp
  next
    case (Some e)
    with c p1 show ?thesis by simp
  qed
next
  case (4 name params children ns cb s)
  obtain s1 r where c: "walkDecls children cb s = (s1, r)"
    by (cases "walkDecls children cb s")
  from "4.IH"(1)[OF "4.prems"] c have p1: "P s1" by simp
  show ?case
  proof (cases r)
    case None
    from "4.IH"(2)[OF c[symmetric] None "4.prems"(1) p1]
    have "P (fst (walkDecls ns cb s1))" by simp
    with c None show ?thesis by simp
  next
    case (Some e)
    with c p1 show ?thesis by simp
  qed
next
  case (5 c ns cb s)
  then show ?case by simp
qed

lemma extract_composes_appends:
  "\<exists>ds. fst (extract_composes vp t a) = a\<lparr>dependencies := dependencies a @ ds\<rparr>"
proof -
  have "\<exists>ds. fst (walkDecls ns (composes_decl vp) a) = a\<lparr>dependencies := dependencies a @ ds\<rparr>"
    for ns
  proof (rule walkDecls_preserves)
    show "\<exists>ds. a = a\<lparr>dependencies := dependencies a @ ds\<rparr>"
      by (rule exI[of _ "[]"]) simp
  next
    fix d s
    assume "\<exists>ds. s = a\<lparr>dependencies := dependencies a @ ds\<rparr>"
    then obtain ds where s: "s = a\<lparr>dependencies := dependencies a @ ds\<rparr>" ..
    show "\<exists>ds. fst (composes_decl vp d s) = a\<lparr>dependencies := dependencies a @ ds\<rparr>"
      unfolding fst_composes_decl
      by (rule exI[of _ "ds @ (if source_start d = None then []
                               else composes_registrations vp d)"])
         (simp add: s)
  qed
  moreover have "\<exists>ds. a = a\<lparr>dependencies := dependencies a @ ds\<rparr>"
    by (rule exI[of _ "[]"]) simp
  ultimately show ?thesis
    by (simp add: extract_composes_def Let_def)
qed

lemma extract_composes_only_dependencies:
  "fst (extract_composes vp t a) =
     a\<lparr>dependencies := dependencies (fst (extract_composes vp t a))\<rparr>"
proof -
  from extract_composes_appends[of vp t a] obtain ds where
    "fst (extract_composes vp t a) = a\<lparr>dependencies := dependencies a @ ds\<rparr>" ..
  then show ?thesis by simp
qed

lemma committed_extract_composes:
  "committed (fst (extract_composes vp t a)) = committed a"
  by (subst extract_composes_only_dependencies) simp

lemma includedFiles_extract_composes:
  "includedFiles (fst (extract_composes vp t a)) = includedFiles a"
  by (subst extract_composes_only_dependencies) simp

lemma pipeline_runs_extract_composes:
  "pipeline_runs (fst (extract_composes vp t a)) = pipeline_runs a"
  by (subst extract_composes_only_dependencies) simp

lemma astDirty_extract_composes:
  "astDirty (fst (extract_composes vp t a)) = astDirty a"
  by (subst extract_composes_only_dependencies) simp

lemma cssModules_extract_composes:
  "cssModules (fst (extract_composes vp t a)) = cssModules a"
  by (subst extract_composes_only_dependencies) simp

lemma filePath_extract_composes:
  "filePath (fst (extract_composes vp t a)) = filePath a"
  by (subst extract_composes_only_dependencies) simp

text \<open>When every declaration has a source, the scan does not throw.\<close>

lemma fold_composes_decl:
  assumes "\<forall>d \<in> set ds. source_start d \<noteq> None"
  shows "fold (\<lambda>d s. fst (composes_decl vp d s)) ds a =
     a\<lparr>dependencies := dependencies a @ concat (map (composes_registrations vp) ds)\<rparr>"
  using assms by (induction ds arbitrary: a) (auto simp: fst_composes_decl)

lemma walkDecls_composes_decl:
  assumes "\<forall>d \<in> set (decls_of ns). source_start d \<noteq> None"
  shows "walkDecls ns (composes_decl vp) a =
     (a\<lparr>dependencies := dependencies a @
          concat (map (composes_registrations vp) (decls_of ns))\<rparr>, None)"
proof -
  have "\<forall>d \<in> set (decls_of ns). \<forall>s. snd (composes_decl vp d s) = None"
    using assms by (auto simp: composes_decl_registers)
  from walkDecls_no_error[OF this] show ?thesis
    by (simp add: fold_composes_decl[OF assms])
qed

lemma semver_parse_7_0_0:
  "semver_parse ''7.0.0'' = Inr \<lparr>major = 7, minor = 0, patch = 0, prerelease = []\<rparr>"
  unfolding semver_parse_def Let_def
  by (simp add: trim_def white_space_def numeric_identifier_def is_digit_def MAX_LENGTH_def
      MAX_SAFE_INTEGER_def)

lemma canReuseAST_7_0_0:
  "satisfies_caret ''7.0.0'' (7, 0, 0) = Inr True"
  by (simp add: satisfies_caret_def semver_parse_7_0_0 version_less_def caret_upper_def)

text \<open>
  Other version strings: a leading \<^verbatim>\<open>v\<close> and build metadata are accepted, a later
  major version and a pre-release are outside the range, and a version of two numbers
  makes the library throw.
\<close>

lemma satisfies_caret_examples:
  "satisfies_caret ''v7.0.14+build'' (7, 0, 0) = Inr True"
  "satisfies_caret ''8.0.0'' (7, 0, 0) = Inr False"
  "satisfies_caret ''7.1.0-beta.1'' (7, 0, 0) = Inr False"
  "satisfies_caret ''7.0'' (7, 0, 0) = Inl TypeError"
  "satisfies_caret [] (7, 0, 0) = Inr False"
  unfolding satisfies_caret_def semver_parse_def Let_def
  by (simp_all add: trim_def white_space_def numeric_identifier_def is_digit_def MAX_LENGTH_def
      MAX_SAFE_INTEGER_def version_less_def caret_upper_def build_identifier_def
      prerelease_identifier_def is_identifier_char_def)

lemma canReuseAST_tagged:
  assumes "ast_type t = ''postcss''" "ast_version t = ''7.0.0''"
  shows "canReuseAST t = Inr True"
  using assms by (simp add: canReuseAST_def canReuseAST_7_0_0)

lemma transform_cases:
  assumes "plugin_list env c = Inr ps" "getAST a = Some t"
  obtains (scan) e where "snd (extract_composes (valueParser env) t a) = Some e"
      "transform env a (Some c) = (fst (extract_composes (valueParser env) t a), Inl e)"
  | (chain) e where "snd (extract_composes (valueParser env) t a) = None"
      "outcome (process env ps (program t) (hydrated c)) = Inl e"
      "transform env a (Some c) =
       ((fst (extract_composes (valueParser env) t a))
          \<lparr>pipeline_runs := pipeline_runs (fst (extract_composes (valueParser env) t a)) + 1,
           ast := Some (t\<lparr>program := in_place (process env ps (program t) (hydrated c))\<rparr>),
           cssModules :=
             (if getJSON_calls (process env ps (program t) (hydrated c)) = []
              then cssModules (fst (extract_composes (valueParser env) t a))
              else Some (last (getJSON_calls (process env ps (program t) (hydrated c)))))\<rparr>,
        Inl e)"
  | (ended) ms root where "snd (extract_composes (valueParser env) t a) = None"
      "outcome (process env ps (program t) (hydrated c)) = Inr (ms, root)"
      "transform env a (Some c) =
       (finished (fst (extract_composes (valueParser env) t a))
          (getJSON_calls (process env ps (program t) (hydrated c))) ms root,
        Inr (output_assets (finished (fst (extract_composes (valueParser env) t a))
          (getJSON_calls (process env ps (program t) (hydrated c))) ms root)))"
proof -
  obtain a1 r where x: "extract_composes (valueParser env) t a = (a1, r)"
    by (cases "extract_composes (valueParser env) t a")
  show thesis
  proof (cases r)
    case (Some e)
    from transform_scan_throws[OF assms x[unfolded Some]] x Some scan show thesis by simp
  next
    case None
    note n = x[unfolded None]
    show thesis
    proof (cases "outcome (process env ps (program t) (hydrated c))")
      case (Inl e)
      from transform_failure[OF assms n Inl] n Inl chain show thesis by simp
    next
      case (Inr r)
      obtain ms root where "r = (ms, root)" by (cases r)
      with Inr have o: "outcome (process env ps (program t) (hydrated c)) = Inr (ms, root)"
        by simp
      from transform_success[OF assms n o] n o ended show thesis by simp
    qed
  qed
qed

lemma transform_committed:
  "\<exists>new. committed (fst (transform env a cfg)) = committed a @ new
      \<and> (\<forall>t \<in> set new. ast_type t = ''postcss'' \<and> ast_version t = ''7.0.0'')"
proof (cases cfg)
  case None
  then show ?thesis by (simp add: transform_def)
next
  case (Some c)
  show ?thesis
  proof (cases "plugin_list env c")
    case (Inl e)
    with Some show ?thesis by (simp add: transform_def)
  next
    case (Inr ps)
    show ?thesis
    proof (cases "getAST a")
      case None
      with Some Inr show ?thesis by (simp add: transform_def)
    next
      case t: (Some t)
      from Inr t show ?thesis
      proof (cases rule: transform_cases)
        case (scan e)
        with Some show ?thesis by (simp add: committed_extract_composes)
      next
        case (chain e)
        with Some show ?thesis by (simp add: committed_extract_composes)
      next
        case (ended ms root)
        with Some show ?thesis by (simp add: finished_def committed_extract_composes)
      qed
    qed
  qed
qed

text \<open>
  C10. A tree returned by \<^verbatim>\<open>parse\<close> under an active configuration, and every tree
  that \<^verbatim>\<open>transform\<close> hands to \<^verbatim>\<open>setAST\<close>, has type \<^verbatim>\<open>postcss\<close> and version
  \<^verbatim>\<open>7.0.0\<close>, and \<^verbatim>\<open>canReuseAST\<close> returns true on it.
\<close>

theorem ast_tag_accepted_by_guard:
  "(parse env a (Some c) = Inr (Some t) \<longrightarrow>
      ast_type t = ''postcss'' \<and> ast_version t = ''7.0.0'' \<and> canReuseAST t = Inr True)
   \<and> (\<exists>new. committed (fst (transform env a cfg)) = committed a @ new
        \<and> (\<forall>t \<in> set new.
              ast_type t = ''postcss'' \<and> ast_version t = ''7.0.0''
              \<and> canReuseAST t = Inr True))"
proof -
  have "ast_type t = ''postcss'' \<and> ast_version t = ''7.0.0'' \<and> canReuseAST t = Inr True"
    if "parse env a (Some c) = Inr (Some t)"
    using that by (auto simp: parse_def canReuseAST_tagged split: sum.splits)
  then show ?thesis
    using transform_committed[of env a cfg] canReuseAST_tagged by blast
qed

lemma transform_dependencies:
  assumes "plugin_list env c = Inr ps" "getAST a = Some t"
  shows "dependencies (fst (transform env a (Some c))) =
         dependencies (fst (extract_composes (valueParser env) t a))"
  using assms
proof (cases rule: transform_cases)
  case (scan e)
  then show ?thesis by simp
next
  case (chain e)
  then show ?thesis by simp
next
  case (ended ms root)
  then show ?thesis by (simp add: finished_def)
qed

lemma transform_Inr:
  assumes "transform env a (Some c) = (a', Inr outs)"
  shows "\<exists>ps t ms root. plugin_list env c = Inr ps \<and> getAST a = Some t
           \<and> snd (extract_composes (valueParser env) t a) = None
           \<and> outcome (process env ps (program t) (hydrated c)) = Inr (ms, root)
           \<and> a' = finished (fst (extract_composes (valueParser env) t a))
                    (getJSON_calls (process env ps (program t) (hydrated c))) ms root
           \<and> outs = output_assets a'"
proof (cases "plugin_list env c")
  case (Inl e)
  with assms show ?thesis by (simp add: transform_def)
next
  case (Inr ps)
  show ?thesis
  proof (cases "getAST a")
    case None
    with assms Inr show ?thesis by (simp add: transform_def)
  next
    case t: (Some t)
    from Inr t show ?thesis
    proof (cases rule: transform_cases)
      case (scan e)
      with assms show ?thesis by simp
    next
      case (chain e)
      with assms show ?thesis by simp
    next
      case (ended ms root)
      with assms Inr t show ?thesis by auto
    qed
  qed
qed

lemma filePath_finished:
  "filePath (finished (fst (extract_composes vp t a)) js ms root) = filePath a"
  by (simp add: finished_def filePath_extract_composes)

text \<open>
  C8. With a tree that is not dirty and code that \<^verbatim>\<open>COMPOSES_RE\<close> does not match, the
  walk over the declarations is skipped and \<^verbatim>\<open>transform\<close> registers no dependency;
  with a dirty tree the code is not read and every declaration is scanned.
\<close>

theorem fast_path_skips_scan:
  assumes "plugin_list env c = Inr ps" "getAST a = Some t"
  shows "(\<not> isASTDirty a \<and> \<not> test COMPOSES_RE (getCode a) \<longrightarrow>
            extract_composes (valueParser env) t a = (a, None)
            \<and> registered a (fst (transform env a (Some c))) = [])
       \<and> (isASTDirty a \<longrightarrow>
            extract_composes (valueParser env) t a =
              walkDecls (program t) (composes_decl (valueParser env)) a
            \<and> dependencies (fst (transform env a (Some c))) =
              dependencies (fst (walkDecls (program t) (composes_decl (valueParser env)) a)))"
  using transform_dependencies[OF assms]
  by (simp add: extract_composes_def registered_def)

text \<open>
  C9, as amended. When the plug-in chain fails, \<^verbatim>\<open>transform\<close> throws the error of the
  chain as it is; \<^verbatim>\<open>setAST\<close> is not called, no included file is registered, nothing is
  returned, and the chain has run once. The call is not undone: the asset keeps the
  dependencies that the scan of the declarations registered before the chain ran, the
  last token map that the chain handed over before it failed, if any, and its tree as
  the chain left it.
\<close>

theorem plugin_failure_keeps_earlier_writes:
  assumes "plugin_list env c = Inr ps" "getAST a = Some t"
    and "snd (extract_composes (valueParser env) t a) = None"
    and "outcome (process env ps (program t) (hydrated c)) = Inl e"
  shows "snd (transform env a (Some c)) = Inl e
       \<and> committed (fst (transform env a (Some c))) = committed a
       \<and> astDirty (fst (transform env a (Some c))) = astDirty a
       \<and> includedFiles (fst (transform env a (Some c))) = includedFiles a
       \<and> pipeline_runs (fst (transform env a (Some c))) = pipeline_runs a + 1
       \<and> dependencies (fst (transform env a (Some c))) =
           dependencies (fst (extract_composes (valueParser env) t a))
       \<and> cssModules (fst (transform env a (Some c))) =
           (if getJSON_calls (process env ps (program t) (hydrated c)) = []
            then cssModules a
            else Some (last (getJSON_calls (process env ps (program t) (hydrated c)))))
       \<and> ast (fst (transform env a (Some c))) =
           Some (t\<lparr>program := in_place (process env ps (program t) (hydrated c))\<rparr>)"
  using assms(1,2)
proof (cases rule: transform_cases)
  case (scan e')
  with assms(3) show ?thesis by simp
next
  case (chain e')
  with assms(4) show ?thesis
    by (simp add: committed_extract_composes astDirty_extract_composes
        includedFiles_extract_composes pipeline_runs_extract_composes
        cssModules_extract_composes)
next
  case (ended ms root)
  with assms(4) show ?thesis by simp
qed

text \<open>
  C3, as amended. When a configuration is active and the run succeeds, a companion
  asset of type \<^verbatim>\<open>js\<close>, whose path is the path of the asset followed by \<^verbatim>\<open>.js\<close>, is
  returned if and only if a token map is stored on the asset, with or without entries;
  when none is stored, only the asset is returned.
\<close>

theorem companion_iff_token_map_stored:
  assumes "transform env a (Some c) = (a', Inr outs)"
  shows "(cssModules a' \<noteq> None \<longrightarrow>
            (\<exists>n. outs = [Original, NewAsset n] \<and> na_type n = ''js''
                  \<and> na_filePath n = filePath a @ ''.js''))
       \<and> (cssModules a' = None \<longrightarrow> outs = [Original])"
proof -
  from transform_Inr[OF assms] obtain ps t ms root where
    a': "a' = finished (fst (extract_composes (valueParser env) t a))
                (getJSON_calls (process env ps (program t) (hydrated c))) ms root"
    and outs: "outs = output_assets a'"
    by blast
  from a' have "filePath a' = filePath a" by (simp add: filePath_finished)
  with outs show ?thesis by (auto simp: output_assets_def)
qed

text \<open>
  C6. The default generator of scoped names returns \<^verbatim>\<open>_\<close>, the class name, \<^verbatim>\<open>_\<close>
  and the first five characters of the digest of file name and content; calls with the
  same arguments return the same string.
\<close>

theorem generateScopedName_value:
  "generateScopedName md5 name filename css =
     ''_'' @ name @ ''_'' @ take 5 (md5 (filename @ css))
   \<and> (\<forall>name' filename' css'.
        name' = name \<and> filename' = filename \<and> css' = css \<longrightarrow>
        generateScopedName md5 name' filename' css' = generateScopedName md5 name filename css)
   \<and> length (generateScopedName md5 name filename css) =
       length name + 2 + min 5 (length (md5 (filename @ css)))"
  by (simp add: generateScopedName_def min_def)

theorem generateScopedName_value_witness:
  "generateScopedName example_md5 ''btn'' ''/proj/src/a.css'' ''.btn {}'' = ''_btn_62000''
   \<and> length (generateScopedName example_md5 ''btn'' ''/proj/src/a.css'' ''.btn {}'') = 10"
proof -
  have e: "example_md5 (''/proj/src/a.css'' @ ''.btn {}'') =
           ''62000000000000000000000000000000''"
    by code_simp
  show ?thesis
    using generateScopedName_value[of example_md5 "''btn''" "''/proj/src/a.css''" "''.btn {}''"] e
    by simp
qed

lemmas example_defs = example_env_def example_process_def plugin_name_def truthy_def
  plugin_list_def modules_config_def plain_config_def no_classes_config_def failing_config_def
  getAST_def isASTDirty_def getCode_def getDependencies_def setAST_def

lemma not_test_simple: "\<not> test COMPOSES_RE (code simple_asset)"
  by (simp add: simple_asset_def regex_eval)

lemma not_test_spaced: "\<not> test COMPOSES_RE spaced_code"
  by (simp add: spaced_code_def regex_eval)

lemma transform_example_env:
  assumes "getAST a = Some t" "''failing'' \<notin> set (map plugin_name (plugins (hydrated c)))"
    and "extract_composes example_valueParser t a = (a1, None)"
  shows "transform example_env a (Some c) =
     (finished a1
        (if truthy (modules (hydrated c))
         then [if ''no-classes'' \<in> set (map plugin_name (plugins (hydrated c))) then []
               else [(''a'', ''_a_1'')]]
         else [])
        [\<lparr>msg_type = ''dependency'', msg_file = ''/proj/src/vars.css''\<rparr>,
         \<lparr>msg_type = ''warning'', msg_file = []\<rparr>] (program t),
      Inr (output_assets (finished a1
        (if truthy (modules (hydrated c))
         then [if ''no-classes'' \<in> set (map plugin_name (plugins (hydrated c))) then []
               else [(''a'', ''_a_1'')]]
         else [])
        [\<lparr>msg_type = ''dependency'', msg_file = ''/proj/src/vars.css''\<rparr>,
         \<lparr>msg_type = ''warning'', msg_file = []\<rparr>] (program t))))"
proof (cases "truthy (modules (hydrated c))")
  case True
  have p: "plugin_list example_env c =
     Inr (plugins (hydrated c) @
          [PostcssModules (fetch (loader example_env))
             (generateScopedName (md5FromString example_env)) (modules (hydrated c))])"
    using True by (simp add: plugin_list_def example_env_def)
  have x: "extract_composes (valueParser example_env) t a = (a1, None)"
    using assms(3) by (simp add: example_env_def)
  show ?thesis
    using assms(2) True
    by (subst transform_success[OF p assms(1) x, where ms = "[\<lparr>msg_type = ''dependency'', msg_file = ''/proj/src/vars.css''\<rparr>,
         \<lparr>msg_type = ''warning'', msg_file = []\<rparr>]" and root = "program t"])
      (simp_all add: example_env_def example_process_def plugin_name_def)
next
  case False
  have p: "plugin_list example_env c = Inr (plugins (hydrated c))"
    using False by (simp add: plugin_list_def example_env_def)
  have x: "extract_composes (valueParser example_env) t a = (a1, None)"
    using assms(3) by (simp add: example_env_def)
  show ?thesis
    using assms(2) False
    by (subst transform_success[OF p assms(1) x, where ms = "[\<lparr>msg_type = ''dependency'', msg_file = ''/proj/src/vars.css''\<rparr>,
         \<lparr>msg_type = ''warning'', msg_file = []\<rparr>]" and root = "program t"])
      (simp_all add: example_env_def example_process_def plugin_name_def)
qed

lemma extract_composes_simple:
  "extract_composes vp t simple_asset = (simple_asset, None)"
  using not_test_simple
  by (simp add: extract_composes_def isASTDirty_def getCode_def simple_asset_def)

lemma extract_composes_simple_with_deps:
  "extract_composes vp t simple_asset_with_deps = (simple_asset_with_deps, None)"
  using not_test_simple
  by (simp add: extract_composes_def isASTDirty_def getCode_def simple_asset_def
      simple_asset_with_deps_def)


lemma registrations_composes_local:
  "composes_registrations vp composes_local_decl = []"
  by (simp add: composes_registrations_def)


lemma registrations_spaced:
  "composes_registrations example_valueParser spaced_decl =
   [composes_dependency spaced_decl ''./a.css'']"
proof -
  have v: "decl_value spaced_decl = decl_value composes_from_decl"
    "decl_prop spaced_decl = ''composes''"
    by (simp_all add: spaced_decl_def composes_from_decl_def)
  have n: "string_tokens (example_valueParser (decl_value composes_from_decl)) = 1"
    by (simp add: string_tokens_def example_valueParser_def composes_from_parsed_def)
  show ?thesis
    by (simp add: composes_registrations_def v n)
qed

lemma extract_composes_example:
  "extract_composes example_valueParser
     \<lparr>ast_type = ''postcss'', ast_version = ''7.0.0'', program = example_root\<rparr> example_asset =
   (example_asset\<lparr>dependencies := [composes_dependency composes_from_decl ''./a.css'']\<rparr>, None)"
proof -
  have s: "\<forall>d \<in> set (decls_of example_root). source_start d \<noteq> None"
    by (simp add: example_root_def composes_from_decl_def composes_local_decl_def)
  have c: "test COMPOSES_RE (getCode example_asset)"
    by (simp add: getCode_def example_asset_def)
  have d: "dependencies example_asset = []"
    by (simp add: example_asset_def)
  have r: "concat (map (composes_registrations example_valueParser) (decls_of example_root)) =
           [composes_dependency composes_from_decl ''./a.css'']"
    by (simp add: example_root_def registrations_composes_from registrations_composes_local)
  show ?thesis
    using c by (simp add: extract_composes_def walkDecls_composes_decl[OF s] r d)
qed

text \<open>
  A declaration without source makes the scan throw at its first string token; what the
  declarations before it registered stays on the asset, and the chain does not run.
\<close>

lemma transform_sourceless_throws:
  "transform example_env sourceless_asset (Some plain_config) =
     (sourceless_asset\<lparr>dependencies := [composes_dependency composes_from_decl ''./a.css'']\<rparr>,
      Inl TypeError)"
proof -
  have p: "plugin_list example_env plain_config = Inr [Plugin ''autoprefixer'']"
    by (simp add: example_defs)
  have t: "getAST sourceless_asset =
           Some \<lparr>ast_type = ''postcss'', ast_version = ''7.0.0'',
                 program = [Rule ''.a'' [Decl composes_from_decl, Decl sourceless_decl]]\<rparr>"
    by (simp add: getAST_def sourceless_asset_def)
  have s1: "source_start composes_from_decl = Some \<lparr>line = 2, column = 3\<rparr>"
    by (simp add: composes_from_decl_def)
  have s2: "source_start sourceless_decl = None"
    by (simp add: sourceless_decl_def)
  have v: "decl_value sourceless_decl = decl_value composes_from_decl"
    "decl_prop sourceless_decl = ''composes''"
    by (simp_all add: sourceless_decl_def composes_from_decl_def)
  have n: "string_tokens (example_valueParser (decl_value composes_from_decl)) = 1"
    by (simp add: string_tokens_def example_valueParser_def composes_from_parsed_def)
  have d: "dependencies sourceless_asset = []"
    by (simp add: sourceless_asset_def example_asset_def)
  have x: "extract_composes (valueParser example_env)
             \<lparr>ast_type = ''postcss'', ast_version = ''7.0.0'',
              program = [Rule ''.a'' [Decl composes_from_decl, Decl sourceless_decl]]\<rparr>
             sourceless_asset =
           (sourceless_asset\<lparr>dependencies :=
              [composes_dependency composes_from_decl ''./a.css'']\<rparr>, Some TypeError)"
    by (simp add: extract_composes_def isASTDirty_def sourceless_asset_def[THEN arg_cong[of _ _ astDirty]]
        composes_decl_registers[OF s1] composes_decl_sourceless[OF s2] v n d
        registrations_composes_from example_env_def)
  from transform_scan_throws[OF p t x] show ?thesis .
qed

lemma transform_failing_example:
  "transform example_env example_asset (Some failing_config) =
     (example_asset
        \<lparr>pipeline_runs := 1,
         ast := Some \<lparr>ast_type = ''postcss'', ast_version = ''7.0.0'',
                      program = Comment ''prefixed'' # example_root\<rparr>,
         dependencies := [composes_dependency composes_from_decl ''./a.css'']\<rparr>,
      Inl (Thrown ''plugin failed''))"
proof -
  have p: "plugin_list example_env failing_config =
           Inr [Plugin ''failing'',
                PostcssModules (fetch (loader example_env))
                  (generateScopedName (md5FromString example_env)) (ModulesFlag True)]"
    by (simp add: example_defs)
  have t: "getAST example_asset =
           Some \<lparr>ast_type = ''postcss'', ast_version = ''7.0.0'', program = example_root\<rparr>"
    by (simp add: getAST_def example_asset_def)
  have x: "extract_composes (valueParser example_env)
             \<lparr>ast_type = ''postcss'', ast_version = ''7.0.0'', program = example_root\<rparr>
             example_asset =
           (example_asset\<lparr>dependencies := [composes_dependency composes_from_decl ''./a.css'']\<rparr>,
            None)"
    using extract_composes_example by (simp add: example_env_def)
  have o: "outcome (process example_env
             [Plugin ''failing'',
              PostcssModules (fetch (loader example_env))
                (generateScopedName (md5FromString example_env)) (ModulesFlag True)]
             (program \<lparr>ast_type = ''postcss'', ast_version = ''7.0.0'', program = example_root\<rparr>)
             (hydrated failing_config)) = Inl (Thrown ''plugin failed'')"
    by (simp add: example_defs)
  from transform_failure[OF p t x o] show ?thesis
    by (simp add: example_defs example_asset_def)
qed

lemma JSON_stringify_example:
  "JSON_stringify_tokens [(''a'', ''_a_1'')] =
     ''{'' @ [CHR 0x0A] @ ''  '' @ [CHR 0x22] @ ''a'' @ [CHR 0x22] @ '': '' @
     [CHR 0x22] @ ''_a_1'' @ [CHR 0x22] @ [CHR 0x0A] @ ''}''"
  by (simp add: JSON_stringify_tokens_def JSON_stringify_string_def json_escape_def)

text \<open>
  C3, as stated, fails: a stylesheet without classes stores the empty token map, and the
  companion asset is returned all the same, with the text \<^verbatim>\<open>module.exports = {};\<close>.
\<close>

theorem companion_for_empty_token_map:
  "cssModules (fst (transform example_env simple_asset (Some no_classes_config))) = Some []
   \<and> snd (transform example_env simple_asset (Some no_classes_config)) =
       Inr [Original,
            NewAsset \<lparr>na_type = ''js'', na_filePath = ''/proj/src/s.css.js'',
                      na_content = ''module.exports = {};''\<rparr>]"
proof -
  have t: "getAST simple_asset = Some (the (ast simple_asset))"
    by (simp add: getAST_def simple_asset_def)
  have f: "''failing'' \<notin> set (map plugin_name (plugins (hydrated no_classes_config)))"
    by (simp add: no_classes_config_def plugin_name_def)
  show ?thesis
    unfolding transform_example_env[OF t f extract_composes_simple]
    by (simp add: finished_def output_assets_def companion_content_def simple_asset_def
        getDependencies_def JSON_stringify_tokens_def no_classes_config_def truthy_def
        plugin_name_def)
qed

theorem companion_iff_token_map_stored_witness:
  "cssModules (fst (transform example_env simple_asset (Some no_classes_config))) \<noteq> None
   \<and> (\<exists>n. snd (transform example_env simple_asset (Some no_classes_config)) =
             Inr [Original, NewAsset n]
           \<and> na_type n = ''js'' \<and> na_filePath n = ''/proj/src/s.css.js'')
   \<and> cssModules (fst (transform example_env simple_asset (Some plain_config))) = None
   \<and> snd (transform example_env simple_asset (Some plain_config)) = Inr [Original]"
proof -
  have t: "getAST simple_asset = Some (the (ast simple_asset))"
    by (simp add: getAST_def simple_asset_def)
  have f1: "''failing'' \<notin> set (map plugin_name (plugins (hydrated no_classes_config)))"
    by (simp add: no_classes_config_def plugin_name_def)
  have f2: "''failing'' \<notin> set (map plugin_name (plugins (hydrated plain_config)))"
    by (simp add: plain_config_def plugin_name_def)
  note e1 = transform_example_env[OF t f1 extract_composes_simple]
  note e2 = transform_example_env[OF t f2 extract_composes_simple]
  have c1: "cssModules (fst (transform example_env simple_asset (Some no_classes_config))) \<noteq> None"
    unfolding e1
    by (simp add: finished_def no_classes_config_def truthy_def)
  have c2: "cssModules (fst (transform example_env simple_asset (Some plain_config))) = None"
    unfolding e2
    by (simp add: finished_def plain_config_def truthy_def simple_asset_def)
  have p: "filePath simple_asset = ''/proj/src/s.css''"
    by (simp add: simple_asset_def)
  show ?thesis
    using companion_iff_token_map_stored[of example_env simple_asset no_classes_config
        "fst (transform example_env simple_asset (Some no_classes_config))"
        "projr (snd (transform example_env simple_asset (Some no_classes_config)))"]
      companion_iff_token_map_stored[of example_env simple_asset plain_config
        "fst (transform example_env simple_asset (Some plain_config))"
        "projr (snd (transform example_env simple_asset (Some plain_config)))"]
      c1 c2 p
    by (simp add: e1 e2)
qed

theorem fast_path_skips_scan_witness:
  "registered spaced_asset (fst (transform example_env spaced_asset (Some plain_config))) = []
   \<and> dependencies (fst (transform example_env dirty_asset (Some plain_config))) =
       [composes_dependency spaced_decl ''./a.css'']"
proof -
  have p: "plugin_list example_env plain_config = Inr [Plugin ''autoprefixer'']"
    by (simp add: example_defs)
  have t1: "getAST spaced_asset =
            Some \<lparr>ast_type = ''postcss'', ast_version = ''7.0.0'',
                  program = [Rule ''.a'' [Decl spaced_decl]]\<rparr>"
    by (simp add: getAST_def spaced_asset_def)
  have t2: "getAST dirty_asset =
            Some \<lparr>ast_type = ''postcss'', ast_version = ''7.0.0'',
                  program = [Rule ''.a'' [Decl spaced_decl]]\<rparr>"
    by (simp add: getAST_def spaced_asset_def dirty_asset_def)
  have c1: "\<not> isASTDirty spaced_asset \<and> \<not> test COMPOSES_RE (getCode spaced_asset)"
    using not_test_spaced
    by (simp add: isASTDirty_def getCode_def spaced_asset_def example_asset_def)
  have c2: "isASTDirty dirty_asset"
    by (simp add: isASTDirty_def dirty_asset_def)
  have s: "\<forall>d \<in> set (decls_of [Rule ''.a'' [Decl spaced_decl]]). source_start d \<noteq> None"
    by (simp add: spaced_decl_def composes_from_decl_def)
  have d: "dependencies dirty_asset = []"
    by (simp add: dirty_asset_def spaced_asset_def example_asset_def)
  have w: "dependencies (fst (walkDecls [Rule ''.a'' [Decl spaced_decl]]
              (composes_decl (valueParser example_env)) dirty_asset)) =
           [composes_dependency spaced_decl ''./a.css'']"
    by (subst walkDecls_composes_decl[OF s]) (simp add: registrations_spaced d example_env_def)
  show ?thesis
    using fast_path_skips_scan[OF p t1] fast_path_skips_scan[OF p t2] c1 c2 w
    by simp
qed

text \<open>
  C9, as stated, fails: the call is not atomic. For \<^verbatim>\<open>/proj/src/main.css\<close> and a chain
  whose first plug-in fails, \<^verbatim>\<open>transform\<close> throws the error of the plug-in, and the
  asset has by then the dependency of \<^verbatim>\<open>composes: foo from './a.css'\<close> and the tree
  with the comment that the plug-in put there before it failed.
\<close>

theorem plugin_failure_not_atomic:
  "snd (transform example_env example_asset (Some failing_config)) =
     Inl (Thrown ''plugin failed'')
   \<and> dependencies example_asset = []
   \<and> dependencies (fst (transform example_env example_asset (Some failing_config))) =
       [composes_dependency composes_from_decl ''./a.css'']
   \<and> ast example_asset =
       Some \<lparr>ast_type = ''postcss'', ast_version = ''7.0.0'', program = example_root\<rparr>
   \<and> ast (fst (transform example_env example_asset (Some failing_config))) =
       Some \<lparr>ast_type = ''postcss'', ast_version = ''7.0.0'',
             program = Comment ''prefixed'' # example_root\<rparr>
   \<and> fst (transform example_env example_asset (Some failing_config)) \<noteq> example_asset"
proof -
  have d: "dependencies example_asset = []"
    by (simp add: example_asset_def)
  have t: "ast example_asset =
       Some \<lparr>ast_type = ''postcss'', ast_version = ''7.0.0'', program = example_root\<rparr>"
    by (simp add: example_asset_def)
  have n: "fst (transform example_env example_asset (Some failing_config)) \<noteq> example_asset"
  proof
    assume "fst (transform example_env example_asset (Some failing_config)) = example_asset"
    then have "dependencies (fst (transform example_env example_asset (Some failing_config))) =
               dependencies example_asset"
      by simp
    then show False
      unfolding transform_failing_example d by simp
  qed
  from d t n show ?thesis
    unfolding transform_failing_example by simp
qed

theorem plugin_failure_keeps_earlier_writes_witness:
  "snd (transform example_env example_asset (Some failing_config)) =
     Inl (Thrown ''plugin failed'')
   \<and> committed (fst (transform example_env example_asset (Some failing_config))) = []
   \<and> astDirty (fst (transform example_env example_asset (Some failing_config))) = False
   \<and> includedFiles (fst (transform example_env example_asset (Some failing_config))) = []
   \<and> pipeline_runs (fst (transform example_env example_asset (Some failing_config))) = 1
   \<and> dependencies (fst (transform example_env example_asset (Some failing_config))) =
       [composes_dependency composes_from_decl ''./a.css'']
   \<and> cssModules (fst (transform example_env example_asset (Some failing_config))) = None
   \<and> ast (fst (transform example_env example_asset (Some failing_config))) =
       Some \<lparr>ast_type = ''postcss'', ast_version = ''7.0.0'',
             program = Comment ''prefixed'' # example_root\<rparr>"
proof -
  have p: "plugin_list example_env failing_config =
           Inr [Plugin ''failing'',
                PostcssModules (fetch (loader example_env))
                  (generateScopedName (md5FromString example_env)) (ModulesFlag True)]"
    by (simp add: example_defs)
  have t: "getAST example_asset =
           Some \<lparr>ast_type = ''postcss'', ast_version = ''7.0.0'', program = example_root\<rparr>"
    by (simp add: getAST_def example_asset_def)
  have x: "extract_composes (valueParser example_env)
             \<lparr>ast_type = ''postcss'', ast_version = ''7.0.0'', program = example_root\<rparr>
             example_asset =
           (example_asset\<lparr>dependencies := [composes_dependency composes_from_decl ''./a.css'']\<rparr>,
            None)"
    using extract_composes_example by (simp add: example_env_def)
  have s: "snd (extract_composes (valueParser example_env)
             \<lparr>ast_type = ''postcss'', ast_version = ''7.0.0'', program = example_root\<rparr>
             example_asset) = None"
    by (simp add: x)
  have o: "outcome (process example_env
             [Plugin ''failing'',
              PostcssModules (fetch (loader example_env))
                (generateScopedName (md5FromString example_env)) (ModulesFlag True)]
             (program \<lparr>ast_type = ''postcss'', ast_version = ''7.0.0'', program = example_root\<rparr>)
             (hydrated failing_config)) = Inl (Thrown ''plugin failed'')"
    by (simp add: example_defs)
  have g: "getJSON_calls (process example_env
             [Plugin ''failing'',
              PostcssModules (fetch (loader example_env))
                (generateScopedName (md5FromString example_env)) (ModulesFlag True)]
             (program \<lparr>ast_type = ''postcss'', ast_version = ''7.0.0'', program = example_root\<rparr>)
             (hydrated failing_config)) = []"
    by (simp add: example_defs)
  have i: "in_place (process example_env
             [Plugin ''failing'',
              PostcssModules (fetch (loader example_env))
                (generateScopedName (md5FromString example_env)) (ModulesFlag True)]
             (program \<lparr>ast_type = ''postcss'', ast_version = ''7.0.0'', program = example_root\<rparr>)
             (hydrated failing_config)) = Comment ''prefixed'' # example_root"
    by (simp add: example_defs)
  have b: "committed example_asset = []" "astDirty example_asset = False"
    "includedFiles example_asset = []" "pipeline_runs example_asset = 0"
    "cssModules example_asset = None"
    by (simp_all add: example_asset_def)
  show ?thesis
    using plugin_failure_keeps_earlier_writes[OF p t s o]
    unfolding x g i b
    by simp
qed

theorem ast_tag_accepted_by_guard_witness:
  "parse example_env example_asset (Some modules_config) =
     Inr (Some \<lparr>ast_type = ''postcss'', ast_version = ''7.0.0'', program = example_root\<rparr>)
   \<and> committed (fst (transform example_env example_asset (Some modules_config))) =
       [\<lparr>ast_type = ''postcss'', ast_version = ''7.0.0'', program = example_root\<rparr>]
   \<and> canReuseAST \<lparr>ast_type = ''postcss'', ast_version = ''7.0.0'', program = example_root\<rparr> =
       Inr True"
proof -
  have q: "parse example_env example_asset (Some modules_config) =
     Inr (Some \<lparr>ast_type = ''postcss'', ast_version = ''7.0.0'', program = example_root\<rparr>)"
    by (simp add: parse_def example_env_def getCode_def example_asset_def)
  have t: "getAST example_asset =
           Some \<lparr>ast_type = ''postcss'', ast_version = ''7.0.0'', program = example_root\<rparr>"
    by (simp add: getAST_def example_asset_def)
  have f: "''failing'' \<notin> set (map plugin_name (plugins (hydrated modules_config)))"
    by (simp add: modules_config_def plugin_name_def)
  have c: "committed (fst (transform example_env example_asset (Some modules_config))) =
       [\<lparr>ast_type = ''postcss'', ast_version = ''7.0.0'', program = example_root\<rparr>]"
    unfolding transform_example_env[OF t f extract_composes_example]
    by (simp add: finished_def example_asset_def)
  show ?thesis
    using ast_tag_accepted_by_guard[of example_env example_asset modules_config
        "\<lparr>ast_type = ''postcss'', ast_version = ''7.0.0'', program = example_root\<rparr>"
        "Some modules_config"] q c
    by auto
qed

lemma object_assign_last:
  "m k = Some v \<Longrightarrow> object_assign (sources @ [m]) k = Some v"
  by (simp add: object_assign_def)

text \<open>
  C2. When a token map is stored, the companion asset holds: with no dependency other
  than URL dependencies, \<^verbatim>\<open>module.exports = \<close>, the token map serialised with an
  indentation of two spaces, and a semicolon; otherwise an assignment of
  \<^verbatim>\<open>Object.assign({}, require(d1), ..., require(dn), tokens)\<close>, with the dependencies in
  the order of their registration and the token map of the file last; whatever the
  required modules export, the merged object maps every key of the token map to the
  scoped name of the file.
\<close>

theorem companion_content_text:
  assumes "transform env a (Some c) = (a', Inr outs)" "cssModules a' = Some json"
  shows "\<exists>content.
           outs = [Original,
                   NewAsset \<lparr>na_type = ''js'', na_filePath = filePath a @ ''.js'',
                             na_content = content\<rparr>]
         \<and> (filter (\<lambda>dep. \<not> isURL dep) (dependencies a') = [] \<longrightarrow>
              content = ''module.exports = '' @ JSON_stringify_tokens json @ '';'')
         \<and> (filter (\<lambda>dep. \<not> isURL dep) (dependencies a') \<noteq> [] \<longrightarrow>
              content =
                [CHR 0x0A] @ ''          module.exports = Object.assign({}, '' @
                join '', ''
                  (map (\<lambda>dep. ''require('' @ JSON_stringify_string (moduleSpecifier dep) @ '')'')
                       (filter (\<lambda>dep. \<not> isURL dep) (dependencies a'))) @
                '', '' @ JSON_stringify_tokens json @ '');'' @ [CHR 0x0A] @ ''        '')
         \<and> JSON_stringify_tokens [(''a'', ''_a_1'')] =
             ''{'' @ [CHR 0x0A] @ ''  '' @ [CHR 0x22] @ ''a'' @ [CHR 0x22] @ '': '' @
             [CHR 0x22] @ ''_a_1'' @ [CHR 0x22] @ [CHR 0x0A] @ ''}''
         \<and> (map_of json k = Some v \<longrightarrow>
              object_assign
                (Map.empty # map exports (filter (\<lambda>dep. \<not> isURL dep) (dependencies a')) @
                 [map_of json]) k = Some v)"
proof -
  from transform_Inr[OF assms(1)] obtain ps t ms root where
    a': "a' = finished (fst (extract_composes (valueParser env) t a))
                (getJSON_calls (process env ps (program t) (hydrated c))) ms root"
    and outs: "outs = output_assets a'"
    by blast
  from a' have "filePath a' = filePath a" by (simp add: filePath_finished)
  moreover have "object_assign
       (Map.empty # map exports (filter (\<lambda>dep. \<not> isURL dep) (dependencies a')) @
        [map_of json]) k = Some v" if "map_of json k = Some v"
    using that
      object_assign_last[of "map_of json" k v
        "Map.empty # map exports (filter (\<lambda>dep. \<not> isURL dep) (dependencies a'))"]
    by simp
  ultimately show ?thesis
    using outs assms(2)
    by (simp add: output_assets_def companion_content_def Let_def getDependencies_def
        JSON_stringify_example)
qed

theorem companion_content_text_witness:
  "snd (transform example_env simple_asset (Some modules_config)) =
     Inr [Original,
          NewAsset \<lparr>na_type = ''js'', na_filePath = ''/proj/src/s.css.js'',
            na_content = ''module.exports = {'' @ [CHR 0x0A] @ ''  '' @ [CHR 0x22] @ ''a'' @
              [CHR 0x22] @ '': '' @ [CHR 0x22] @ ''_a_1'' @ [CHR 0x22] @ [CHR 0x0A] @ ''};''\<rparr>]
   \<and> snd (transform example_env simple_asset_with_deps (Some modules_config)) =
     Inr [Original,
          NewAsset \<lparr>na_type = ''js'', na_filePath = ''/proj/src/s.css.js'',
            na_content = [CHR 0x0A] @ ''          module.exports = Object.assign({}, require('' @
              [CHR 0x22] @ ''./x.css'' @ [CHR 0x22] @ ''), require('' @
              [CHR 0x22] @ ''./y.css'' @ [CHR 0x22] @ ''), {'' @ [CHR 0x0A] @ ''  '' @
              [CHR 0x22] @ ''a'' @ [CHR 0x22] @ '': '' @ [CHR 0x22] @ ''_a_1'' @ [CHR 0x22] @
              [CHR 0x0A] @ ''});'' @ [CHR 0x0A] @ ''        ''\<rparr>]
   \<and> object_assign
       [Map.empty, [''a'' \<mapsto> ''_a_9'', ''x'' \<mapsto> ''_x_9''], [''a'' \<mapsto> ''_a_8''],
        map_of [(''a'', ''_a_1'')]] ''a'' = Some ''_a_1''"
proof -
  have t1: "getAST simple_asset = Some (the (ast simple_asset))"
    by (simp add: getAST_def simple_asset_def)
  have t2: "getAST simple_asset_with_deps = Some (the (ast simple_asset))"
    by (simp add: getAST_def simple_asset_def simple_asset_with_deps_def)
  have f: "''failing'' \<notin> set (map plugin_name (plugins (hydrated modules_config)))"
    by (simp add: modules_config_def plugin_name_def)
  have m: "truthy (modules (hydrated modules_config))"
    "''no-classes'' \<notin> set (map plugin_name (plugins (hydrated modules_config)))"
    by (simp_all add: modules_config_def truthy_def plugin_name_def)
  note x1 = transform_example_env[OF t1 f extract_composes_simple]
  note x2 = transform_example_env[OF t2 f extract_composes_simple_with_deps]
  let ?a1 = "fst (transform example_env simple_asset (Some modules_config))"
  let ?o1 = "projr (snd (transform example_env simple_asset (Some modules_config)))"
  let ?a2 = "fst (transform example_env simple_asset_with_deps (Some modules_config))"
  let ?o2 = "projr (snd (transform example_env simple_asset_with_deps (Some modules_config)))"
  have e1: "transform example_env simple_asset (Some modules_config) = (?a1, Inr ?o1)"
    by (simp add: x1)
  have e2: "transform example_env simple_asset_with_deps (Some modules_config) = (?a2, Inr ?o2)"
    by (simp add: x2)
  have c1: "cssModules ?a1 = Some [(''a'', ''_a_1'')]"
    using m by (simp add: x1 finished_def)
  have c2: "cssModules ?a2 = Some [(''a'', ''_a_1'')]"
    using m by (simp add: x2 finished_def)
  have d1: "dependencies ?a1 = []"
    unfolding x1
    by (simp add: finished_def simple_asset_def)
  have d2: "dependencies ?a2 =
       [\<lparr>moduleSpecifier = ''./x.css'', loc = None, isURL = False\<rparr>,
        \<lparr>moduleSpecifier = ''./img.png'', loc = None, isURL = True\<rparr>,
        \<lparr>moduleSpecifier = ''./y.css'', loc = None, isURL = False\<rparr>]"
    unfolding x2
    by (simp add: finished_def simple_asset_with_deps_def)
  have p: "filePath simple_asset = ''/proj/src/s.css''"
    "filePath simple_asset_with_deps = ''/proj/src/s.css''"
    by (simp_all add: simple_asset_def simple_asset_with_deps_def)
  from companion_content_text[OF e1 c1] d1 p have r1:
    "snd (transform example_env simple_asset (Some modules_config)) =
     Inr [Original,
          NewAsset \<lparr>na_type = ''js'', na_filePath = ''/proj/src/s.css.js'',
            na_content = ''module.exports = {'' @ [CHR 0x0A] @ ''  '' @ [CHR 0x22] @ ''a'' @
              [CHR 0x22] @ '': '' @ [CHR 0x22] @ ''_a_1'' @ [CHR 0x22] @ [CHR 0x0A] @ ''};''\<rparr>]"
    by (subst e1) (auto simp: JSON_stringify_example)
  from companion_content_text[OF e2 c2] d2 p have r2:
    "snd (transform example_env simple_asset_with_deps (Some modules_config)) =
     Inr [Original,
          NewAsset \<lparr>na_type = ''js'', na_filePath = ''/proj/src/s.css.js'',
            na_content = [CHR 0x0A] @ ''          module.exports = Object.assign({}, require('' @
              [CHR 0x22] @ ''./x.css'' @ [CHR 0x22] @ ''), require('' @
              [CHR 0x22] @ ''./y.css'' @ [CHR 0x22] @ ''), {'' @ [CHR 0x0A] @ ''  '' @
              [CHR 0x22] @ ''a'' @ [CHR 0x22] @ '': '' @ [CHR 0x22] @ ''_a_1'' @ [CHR 0x22] @
              [CHR 0x0A] @ ''});'' @ [CHR 0x0A] @ ''        ''\<rparr>]"
    by (subst e2) (auto simp: JSON_stringify_example JSON_stringify_string_def json_escape_def)
  from companion_content_text[OF e2 c2, of "''a''" "''_a_1''"
      "\<lambda>dep. if moduleSpecifier dep = ''./x.css'' then [''a'' \<mapsto> ''_a_9'', ''x'' \<mapsto> ''_x_9'']
             else [''a'' \<mapsto> ''_a_8'']"] d2
  have r3: "object_assign
       [Map.empty, [''a'' \<mapsto> ''_a_9'', ''x'' \<mapsto> ''_x_9''], [''a'' \<mapsto> ''_a_8''],
        map_of [(''a'', ''_a_1'')]] ''a'' = Some ''_a_1''"
    by auto
  from r1 r2 r3 show ?thesis by blast
qed




section \<open>Properties of the loader\<close>

lemma strip_quotes_quoted:
  "is_quote q \<Longrightarrow> is_quote q' \<Longrightarrow> strip_quotes (q # p @ [q']) = p"
  by (simp add: strip_quotes_def)

lemma rootRelativePath_stripped:
  assumes "path_resolve env [path_dirname env rel, res] = path_resolve env [''/''] @ t"
  shows "rootRelativePath_of env rel res = t"
  using assms by (simp add: rootRelativePath_of_def Let_def)

lemma rootRelativePath_kept:
  assumes "\<not> prefix (path_resolve env [''/'']) (path_resolve env [path_dirname env rel, res])"
  shows "rootRelativePath_of env rel res = path_resolve env [path_dirname env rel, res]"
  using assms by (simp add: rootRelativePath_of_def Let_def)

lemma fetch_path_representation:
  assumes "resolve env' = resolve env" "readFile env' = readFile env"
    "core_load env' = core_load env"
    "\<forall>rel res. rootRelativePath_of env' rel res = rootRelativePath_of env rel res"
  shows "fetch env' n raw rel = fetch env n raw rel"
proof (induction n arbitrary: raw rel)
  case 0
  then show ?case by simp
next
  case (Suc n)
  then have "fetch env' n = fetch env n" by (intro ext)
  with assms show ?case by (simp add: Let_def split: sum.splits)
qed

text \<open>
  C7. \<^verbatim>\<open>fetch\<close> resolves the specifier without its surrounding quotes, reads the
  resolved file, tokenizes it with itself as the nested resolver and returns the export
  tokens of the result and nothing else. The tokenizer gets the derived path without the
  root marker, whether the derived path carries the marker or not, so two path
  representations that differ in the marker alone give the same tokens. The final source
  of the loader is empty.
\<close>

theorem fetch_returns_export_tokens:
  "fetch env (Suc n) raw relativeTo =
     (case resolve env relativeTo (strip_quotes raw) of
        Inl e \<Rightarrow> Some (Inl e)
      | Inr resolved \<Rightarrow>
          (case readFile env resolved of
             Inl e \<Rightarrow> Some (Inl e)
           | Inr source \<Rightarrow>
               map_option (map_sum id exportTokens)
                 (core_load env source (rootRelativePath_of env relativeTo resolved)
                    (fetch env n))))
   \<and> (is_quote q \<and> is_quote q' \<longrightarrow> strip_quotes (q # p @ [q']) = p)
   \<and> (\<forall>t. \<not> prefix (path_resolve env [''/'']) t
          \<and> (path_resolve env [path_dirname env relativeTo, resolved] =
               path_resolve env [''/''] @ t
             \<or> path_resolve env [path_dirname env relativeTo, resolved] = t)
          \<longrightarrow> rootRelativePath_of env relativeTo resolved = t)
   \<and> (\<forall>env'. resolve env' = resolve env \<and> readFile env' = readFile env
          \<and> core_load env' = core_load env
          \<and> (\<forall>rel res. rootRelativePath_of env' rel res = rootRelativePath_of env rel res)
          \<longrightarrow> fetch env' (Suc n) raw relativeTo = fetch env (Suc n) raw relativeTo)
   \<and> finalSource = ''''"
proof -
  have a: "fetch env (Suc n) raw relativeTo =
     (case resolve env relativeTo (strip_quotes raw) of
        Inl e \<Rightarrow> Some (Inl e)
      | Inr resolved \<Rightarrow>
          (case readFile env resolved of
             Inl e \<Rightarrow> Some (Inl e)
           | Inr source \<Rightarrow>
               map_option (map_sum id exportTokens)
                 (core_load env source (rootRelativePath_of env relativeTo resolved)
                    (fetch env n))))"
    by (simp add: Let_def split: sum.splits option.splits)
  have b: "is_quote q \<and> is_quote q' \<longrightarrow> strip_quotes (q # p @ [q']) = p"
    by (simp add: strip_quotes_quoted)
  have c: "\<forall>t. \<not> prefix (path_resolve env [''/'']) t
          \<and> (path_resolve env [path_dirname env relativeTo, resolved] =
               path_resolve env [''/''] @ t
             \<or> path_resolve env [path_dirname env relativeTo, resolved] = t)
          \<longrightarrow> rootRelativePath_of env relativeTo resolved = t"
    using rootRelativePath_stripped rootRelativePath_kept by metis
  have d: "\<forall>env'. resolve env' = resolve env \<and> readFile env' = readFile env
          \<and> core_load env' = core_load env
          \<and> (\<forall>rel res. rootRelativePath_of env' rel res = rootRelativePath_of env rel res)
          \<longrightarrow> fetch env' (Suc n) raw relativeTo = fetch env (Suc n) raw relativeTo"
    using fetch_path_representation by blast
  from a b c d show ?thesis by (simp add: finalSource_def)
qed

lemma not_prefix_slash_dropWhile:
  "\<not> prefix ''/'' (dropWhile (\<lambda>c. c = CHR ''/'') s)"
  by (induction s) auto

lemma rootRelativePath_example:
  "rootRelativePath_of example_loader_env rel res = dropWhile (\<lambda>c. c = CHR ''/'') res"
  by (simp add: rootRelativePath_of_def example_loader_env_def posix_resolve_def)

lemma rootRelativePath_unrooted:
  "rootRelativePath_of unrooted_loader_env rel res = dropWhile (\<lambda>c. c = CHR ''/'') res"
  using not_prefix_slash_dropWhile[of res]
  by (simp add: rootRelativePath_of_def unrooted_loader_env_def example_loader_env_def
      unrooted_resolve_def)

lemma fetch_example:
  "fetch example_loader_env (Suc (Suc 0)) ([CHR 0x22] @ ''./b.css'' @ [CHR 0x22])
     ''/proj/src/a.css'' = Some (Inr [(''b'', ''_b_1 _c_1'')])"
  by code_simp

theorem fetch_returns_export_tokens_witness:
  "fetch example_loader_env (Suc (Suc 0)) ([CHR 0x22] @ ''./b.css'' @ [CHR 0x22])
     ''/proj/src/a.css'' = Some (Inr [(''b'', ''_b_1 _c_1'')])
   \<and> fetch unrooted_loader_env (Suc (Suc 0)) ([CHR 0x22] @ ''./b.css'' @ [CHR 0x22])
     ''/proj/src/a.css'' = Some (Inr [(''b'', ''_b_1 _c_1'')])
   \<and> strip_quotes ([CHR 0x22] @ ''./b.css'' @ [CHR 0x22]) = ''./b.css''
   \<and> path_resolve example_loader_env
         [path_dirname example_loader_env ''/proj/src/a.css'', ''/proj/src/b.css''] =
       ''/proj/src/b.css''
   \<and> path_resolve unrooted_loader_env
         [path_dirname unrooted_loader_env ''/proj/src/a.css'', ''/proj/src/b.css''] =
       ''proj/src/b.css''
   \<and> rootRelativePath_of example_loader_env ''/proj/src/a.css'' ''/proj/src/b.css'' =
       ''proj/src/b.css''
   \<and> rootRelativePath_of unrooted_loader_env ''/proj/src/a.css'' ''/proj/src/b.css'' =
       ''proj/src/b.css''
   \<and> finalSource = ''''"
proof -
  have q: "is_quote (CHR 0x22)" by (simp add: is_quote_def)
  have r1: "path_resolve example_loader_env [''/''] = ''/''"
    by (simp add: example_loader_env_def posix_resolve_def)
  have r2: "path_resolve unrooted_loader_env [''/''] = ''/''"
    by (simp add: unrooted_loader_env_def unrooted_resolve_def)
  have d1: "path_resolve example_loader_env
         [path_dirname example_loader_env ''/proj/src/a.css'', ''/proj/src/b.css''] =
       ''/proj/src/b.css''"
    by (simp add: example_loader_env_def posix_resolve_def)
  have d2: "path_resolve unrooted_loader_env
         [path_dirname unrooted_loader_env ''/proj/src/a.css'', ''/proj/src/b.css''] =
       ''proj/src/b.css''"
    by (simp add: unrooted_loader_env_def unrooted_resolve_def)
  have np: "\<not> prefix ''/'' ''proj/src/b.css''" by simp
  have same: "resolve unrooted_loader_env = resolve example_loader_env
      \<and> readFile unrooted_loader_env = readFile example_loader_env
      \<and> core_load unrooted_loader_env = core_load example_loader_env
      \<and> (\<forall>rel res. rootRelativePath_of unrooted_loader_env rel res =
                      rootRelativePath_of example_loader_env rel res)"
    by (simp add: rootRelativePath_example rootRelativePath_unrooted)
      (simp add: unrooted_loader_env_def)
  note t1 = fetch_returns_export_tokens[of example_loader_env "Suc 0"
      "[CHR 0x22] @ ''./b.css'' @ [CHR 0x22]" "''/proj/src/a.css''" "CHR 0x22" "CHR 0x22"
      "''./b.css''" "''/proj/src/b.css''"]
  note t2 = fetch_returns_export_tokens[of unrooted_loader_env "Suc 0"
      "[CHR 0x22] @ ''./b.css'' @ [CHR 0x22]" "''/proj/src/a.css''" "CHR 0x22" "CHR 0x22"
      "''./b.css''" "''/proj/src/b.css''"]
  from t1 same have f2: "fetch unrooted_loader_env (Suc (Suc 0))
      ([CHR 0x22] @ ''./b.css'' @ [CHR 0x22]) ''/proj/src/a.css'' =
     fetch example_loader_env (Suc (Suc 0))
      ([CHR 0x22] @ ''./b.css'' @ [CHR 0x22]) ''/proj/src/a.css''"
    by blast
  from t1 q have s: "strip_quotes ([CHR 0x22] @ ''./b.css'' @ [CHR 0x22]) = ''./b.css''"
    by simp
  from t1 r1 d1 np have p1:
    "rootRelativePath_of example_loader_env ''/proj/src/a.css'' ''/proj/src/b.css'' =
       ''proj/src/b.css''"
    by simp
  from t2 r2 d2 np have p2:
    "rootRelativePath_of unrooted_loader_env ''/proj/src/a.css'' ''/proj/src/b.css'' =
       ''proj/src/b.css''"
    by simp
  from fetch_example f2 s d1 d2 p1 p2 show ?thesis
    by (simp add: finalSource_def)
qed

end
